theory Spec2Isabelle
  imports Main "HOL-Library.Word"
begin

section \<open>Python floats\<close>

text \<open>
  The server formats the numbers that the engines return: \<^verbatim>\<open>str(round(num, 2))\<close>,
  \<^verbatim>\<open>f"{x:.2f}"\<close> and \<^verbatim>\<open>"{:.16f}".format(x)\<close>. A Python float is an IEEE 754 double:
  a sign, a mantissa and a binary exponent, or an infinity, or a NaN.
  \<open>Finite s m e\<close> stands for \<open>(-1)^s * m * 2^e\<close>. Every finite double has this form
  (with \<open>m < 2^53\<close> and \<open>- 1074 \<le> e \<le> 971\<close>), and so has every numpy \<open>float32\<close>.
\<close>

datatype pyfloat = Finite bool nat int | Infinity bool | NaN

text \<open>The quotient \<open>p / q\<close> rounded to the nearest integer, ties to the even one.\<close>

definition round_half_even :: "nat \<Rightarrow> nat \<Rightarrow> nat" where
  "round_half_even p q =
     (let d = p div q; r = p mod q
      in if 2 * r < q then d else if q < 2 * r then d + 1
         else if even d then d else d + 1)"

fun bitlen :: "nat \<Rightarrow> nat" where
  "bitlen n = (if n = 0 then 0 else Suc (bitlen (n div 2)))"

declare bitlen.simps [simp del]

text \<open>\<open>scale2 p q e\<close> is the fraction \<open>p / (q * 2^e)\<close>; \<open>dyadic m e\<close> is \<open>m * 2^e\<close>.\<close>

definition scale2 :: "nat \<Rightarrow> nat \<Rightarrow> int \<Rightarrow> nat \<times> nat" where
  "scale2 p q e = (if 0 \<le> e then (p, q * 2 ^ nat e) else (p * 2 ^ nat (- e), q))"

definition dyadic :: "nat \<Rightarrow> int \<Rightarrow> nat \<times> nat" where
  "dyadic m e = (if 0 \<le> e then (m * 2 ^ nat e, 1) else (m, 2 ^ nat (- e)))"

text \<open>
  The double nearest to \<open>p / q\<close> (round to nearest, ties to even): 53 bits of mantissa,
  subnormals below \<open>2^(-1022)\<close>, an infinity from \<open>2^1024\<close> on. This is what the
  hardware does after an exact operation, and what \<^verbatim>\<open>strtod\<close> does on a decimal.
\<close>

definition nearest_double :: "bool \<Rightarrow> nat \<Rightarrow> nat \<Rightarrow> pyfloat" where
  "nearest_double s p q =
     (if p = 0 then Finite s 0 0
      else
        let e0 = int (bitlen p) - int (bitlen q) - 53;
            e1 = (if (case scale2 p q e0 of (a, b) \<Rightarrow> a div b) < 2 ^ 53 then e0 else e0 + 1);
            e = max e1 (- 1074);
            m = (case scale2 p q e of (a, b) \<Rightarrow> round_half_even a b);
            (m', e') = (if m = 2 ^ 53 then (2 ^ 52, e + 1) else (m, e))
        in if 971 < e' then Infinity s
           else if m' = 0 then Finite s 0 0
           else Finite s m' e')"

text \<open>Python's \<^verbatim>\<open>x - y\<close> on floats: the exact difference, rounded once.\<close>

definition py_sub :: "pyfloat \<Rightarrow> pyfloat \<Rightarrow> pyfloat" where
  "py_sub x y =
     (case (x, y) of
        (NaN, _) \<Rightarrow> NaN
      | (_, NaN) \<Rightarrow> NaN
      | (Infinity s, Infinity s') \<Rightarrow> (if s = s' then NaN else Infinity s)
      | (Infinity s, Finite _ _ _) \<Rightarrow> Infinity s
      | (Finite _ _ _, Infinity s') \<Rightarrow> Infinity (\<not> s')
      | (Finite s m e, Finite s' m' e') \<Rightarrow>
          (let l = min e e';
               a = (if s then - 1 else 1) * int m * 2 ^ nat (e - l);
               b = (if s' then - 1 else 1) * int m' * 2 ^ nat (e' - l);
               d = a - b
           in if d = 0 then Finite (s \<and> \<not> s') 0 0
              else case dyadic (nat \<bar>d\<bar>) l of (p, q) \<Rightarrow> nearest_double (d < 0) p q))"

subsection \<open>Decimal digits\<close>

fun str_nat :: "nat \<Rightarrow> string" where
  "str_nat n = (if n < 10 then [''0123456789'' ! n]
                else str_nat (n div 10) @ [''0123456789'' ! (n mod 10)])"

declare str_nat.simps [simp del]

text \<open>\<open>m * 2^e * 10^d\<close> rounded to an integer, ties to even: the digits of the
  correctly rounded decimal with \<open>d\<close> places.\<close>

definition decimal_round :: "nat \<Rightarrow> nat \<Rightarrow> int \<Rightarrow> nat" where
  "decimal_round d m e =
     (if 0 \<le> e then m * 2 ^ nat e * 10 ^ d
      else round_half_even (m * 10 ^ d) (2 ^ nat (- e)))"

text \<open>
  \<^verbatim>\<open>"{:.<d>f}".format(x)\<close> and \<^verbatim>\<open>f"{x:.<d>f}"\<close>: the sign, the integer part, and \<open>d\<close>
  digits after the point, correctly rounded from the exact binary value.
\<close>

definition format_f :: "nat \<Rightarrow> pyfloat \<Rightarrow> string" where
  "format_f d x =
     (case x of
        NaN \<Rightarrow> ''nan''
      | Infinity s \<Rightarrow> (if s then ''-inf'' else ''inf'')
      | Finite s m e \<Rightarrow>
          (let n = decimal_round d m e;
               ds = str_nat (n mod 10 ^ d)
           in (if s then ''-'' else []) @ str_nat (n div 10 ^ d) @
              (if d = 0 then [] else ''.'' @ replicate (d - length ds) CHR ''0'' @ ds)))"

text \<open>
  \<^verbatim>\<open>round(x, ndigits)\<close> with \<open>0 \<le> ndigits\<close> small: the correctly rounded decimal with
  \<open>ndigits\<close> places, read back as a double. Non-finite values round to themselves.
\<close>

definition py_round :: "pyfloat \<Rightarrow> nat \<Rightarrow> pyfloat" where
  "py_round x ndigits =
     (case x of
        Finite s m e \<Rightarrow> nearest_double s (decimal_round ndigits m e) (10 ^ ndigits)
      | _ \<Rightarrow> x)"

subsection \<open>\<^verbatim>\<open>str\<close> of a float\<close>

text \<open>
  \<^verbatim>\<open>str(x)\<close> is \<^verbatim>\<open>repr(x)\<close>: the shortest decimal that reads back as \<open>x\<close> (the closest
  to \<open>x\<close> among the shortest), written with a point and at least one digit after it, or
  with an exponent when the decimal point would lie left of the fourth leading zero or
  right of the sixteenth digit.
\<close>

function lead_zeros :: "nat \<Rightarrow> nat \<Rightarrow> nat" where
  "lead_zeros p q = (if p = 0 \<or> q \<le> p then 0 else Suc (lead_zeros (p * 10) q))"
  by pat_completeness auto
termination
  by (relation "measure (\<lambda>(p, q). q - p)") auto

declare lead_zeros.simps [simp del]

text \<open>The decimal exponent of \<open>p / q\<close>: \<open>10^t \<le> p / q < 10^(t + 1)\<close>.\<close>

definition decimal_exponent :: "nat \<Rightarrow> nat \<Rightarrow> int" where
  "decimal_exponent p q =
     (if q \<le> p then int (length (str_nat (p div q))) - 1 else - int (lead_zeros p q))"

definition scale10 :: "nat \<Rightarrow> nat \<Rightarrow> int \<Rightarrow> nat \<times> nat" where
  "scale10 p q t = (if 0 \<le> t then (p, q * 10 ^ nat t) else (p * 10 ^ nat (- t), q))"

text \<open>The double that the decimal \<open>c * 10^t\<close> reads back as.\<close>

definition of_decimal :: "bool \<Rightarrow> nat \<Rightarrow> int \<Rightarrow> pyfloat" where
  "of_decimal s c t = (if 0 \<le> t then nearest_double s (c * 10 ^ nat t) 1
                       else nearest_double s c (10 ^ nat (- t)))"

text \<open>The multiples of \<open>10^t\<close> on both sides of \<open>p / q\<close>, the closer one first.\<close>

definition candidates :: "nat \<Rightarrow> nat \<Rightarrow> int \<Rightarrow> nat list" where
  "candidates p q t =
     (case scale10 p q t of (a, b) \<Rightarrow>
        (let lo = a div b; r = a mod b
         in if r = 0 then [lo]
            else if 2 * r < b then [lo, lo + 1]
            else if b < 2 * r then [lo + 1, lo]
            else if even lo then [lo, lo + 1] else [lo + 1, lo]))"

text \<open>Try \<open>k\<close>, \<open>k + 1\<close>, ... significant digits; 17 always suffice for a double.\<close>

fun shortest :: "nat \<Rightarrow> nat \<Rightarrow> bool \<Rightarrow> nat \<Rightarrow> nat \<Rightarrow> nat \<times> int" where
  "shortest 0 k s p q =
     (let t = decimal_exponent p q - int k + 1 in (hd (candidates p q t), t))"
| "shortest (Suc fuel) k s p q =
     (let t = decimal_exponent p q - int k + 1
      in case filter (\<lambda>c. of_decimal s c t = nearest_double s p q) (candidates p q t) of
           c # _ \<Rightarrow> (c, t)
         | [] \<Rightarrow> shortest fuel (Suc k) s p q)"

definition strip_zeros :: "string \<Rightarrow> string" where
  "strip_zeros ds = rev (dropWhile (\<lambda>c. c = CHR ''0'') (rev ds))"

text \<open>The digits \<open>ds\<close> with the decimal point after the first \<open>decpt\<close> of them.\<close>

definition repr_digits :: "bool \<Rightarrow> string \<Rightarrow> int \<Rightarrow> string" where
  "repr_digits s ds decpt =
     (let n = int (length ds); sgn = (if s then ''-'' else [])
      in if decpt \<le> - 4 \<or> 16 < decpt then
           (let ex = decpt - 1; es = str_nat (nat \<bar>ex\<bar>)
            in sgn @ take 1 ds @ (if 1 < n then ''.'' @ drop 1 ds else []) @ ''e'' @
               (if ex < 0 then ''-'' else ''+'') @ (if length es < 2 then ''0'' @ es else es))
         else if decpt \<le> 0 then sgn @ ''0.'' @ replicate (nat (- decpt)) CHR ''0'' @ ds
         else if n \<le> decpt then sgn @ ds @ replicate (nat (decpt - n)) CHR ''0'' @ ''.0''
         else sgn @ take (nat decpt) ds @ ''.'' @ drop (nat decpt) ds)"

definition py_str :: "pyfloat \<Rightarrow> string" where
  "py_str x =
     (case x of
        NaN \<Rightarrow> ''nan''
      | Infinity s \<Rightarrow> (if s then ''-inf'' else ''inf'')
      | Finite s m e \<Rightarrow>
          (if m = 0 then (if s then ''-0.0'' else ''0.0'')
           else case dyadic m e of (p, q) \<Rightarrow>
             (case shortest 16 1 s p q of (c, t) \<Rightarrow>
                repr_digits s (strip_zeros (str_nat c)) (t + int (length (str_nat c))))))"

text \<open>
  How many characters follow the decimal point of a plain decimal numeral (an optional
  sign, digits, a point, digits); \<open>None\<close> for any other string.
\<close>

definition is_digit :: "char \<Rightarrow> bool" where
  "is_digit c = (c \<in> set ''0123456789'')"

definition decimal_places :: "string \<Rightarrow> nat option" where
  "decimal_places str =
     (let body = (case str of c # cs \<Rightarrow> (if c = CHR ''-'' then cs else str) | [] \<Rightarrow> []);
          ip = takeWhile is_digit body;
          rest = dropWhile is_digit body
      in case rest of
           c # fp \<Rightarrow> (if c = CHR ''.'' \<and> ip \<noteq> [] \<and> list_all is_digit fp
                      then Some (length fp) else None)
         | [] \<Rightarrow> None)"

section \<open>The result normalizer\<close>

text \<open>\<^verbatim>\<open>def to_fixed(num): return str(round(num, 2))\<close>\<close>

definition to_fixed :: "pyfloat \<Rightarrow> string" where
  "to_fixed num = py_str (py_round num 2)"

text \<open>
  A failure that Python raises as an \<^verbatim>\<open>Exception\<close>, with the text \<^verbatim>\<open>str(e)\<close> gives.
  A computation that may raise returns \<open>Inl\<close> of the exception.
\<close>

datatype py_exception = Exception string

definition quoted :: "string \<Rightarrow> string" where
  "quoted name = [CHR 0x27] @ name @ [CHR 0x27]"

fun str_exc :: "py_exception \<Rightarrow> string" where
  "str_exc (Exception msg) = msg"

text \<open>\<^verbatim>\<open>xs[i]\<close> for \<open>0 \<le> i\<close>: an \<^verbatim>\<open>IndexError\<close> out of range.\<close>

definition index :: "'a list \<Rightarrow> nat \<Rightarrow> py_exception + 'a" where
  "index xs i = (if i < length xs then Inr (xs ! i)
                 else Inl (Exception ''list index out of range''))"

text \<open>
  The raw result of the OCR engine is \<^verbatim>\<open>None\<close> or a list of detections
  \<^verbatim>\<open>[dt_box, text, score]\<close>, where \<^verbatim>\<open>dt_box\<close> lists the corner points \<^verbatim>\<open>[x, y]\<close> of a
  quadrilateral.
\<close>

type_synonym dt_box = "pyfloat list list"
type_synonym detection = "dt_box \<times> string \<times> pyfloat"

record box =
  box_x :: string
  box_y :: string
  box_width :: string
  box_height :: string

record ocr_result =
  texts :: "string list"
  scores :: "string list"
  boxes :: "box list"

text \<open>\<^verbatim>\<open>dt_box[i][j]\<close>\<close>

definition coord :: "dt_box \<Rightarrow> nat \<Rightarrow> nat \<Rightarrow> py_exception + pyfloat" where
  "coord dt_box i j = (case index dt_box i of Inl e \<Rightarrow> Inl e | Inr p \<Rightarrow> index p j)"

text \<open>The dictionary \<^verbatim>\<open>box\<close> that the loop body of \<^verbatim>\<open>trans_result\<close> builds.\<close>

definition make_box :: "dt_box \<Rightarrow> py_exception + box" where
  "make_box dt_box =
     (case coord dt_box 0 0 of Inl e \<Rightarrow> Inl e | Inr x0 \<Rightarrow>
      case coord dt_box 0 1 of Inl e \<Rightarrow> Inl e | Inr y0 \<Rightarrow>
      case coord dt_box 1 0 of Inl e \<Rightarrow> Inl e | Inr x1 \<Rightarrow>
      case coord dt_box 2 1 of Inl e \<Rightarrow> Inl e | Inr y2 \<Rightarrow>
        Inr \<lparr>box_x = to_fixed x0, box_y = to_fixed y0,
             box_width = to_fixed (py_sub x1 x0),
             box_height = to_fixed (py_sub y2 y0)\<rparr>)"

text \<open>The \<^verbatim>\<open>for res_i in result\<close> loop, with the three lists it appends to.\<close>

fun trans_loop :: "detection list \<Rightarrow> ocr_result \<Rightarrow> py_exception + ocr_result" where
  "trans_loop [] acc = Inr acc"
| "trans_loop ((dt_box, text, score) # rest) acc =
     (case make_box dt_box of
        Inl e \<Rightarrow> Inl e
      | Inr b \<Rightarrow>
          trans_loop rest
            \<lparr>texts = texts acc @ [text],
             scores = scores acc @ [format_f 2 score],
             boxes = boxes acc @ [b]\<rparr>)"

definition trans_result :: "detection list option \<Rightarrow> py_exception + ocr_result" where
  "trans_result result =
     (case result of
        None \<Rightarrow> Inr \<lparr>texts = [], scores = [], boxes = []\<rparr>
      | Some rs \<Rightarrow> trans_loop rs \<lparr>texts = [], scores = [], boxes = []\<rparr>)"

section \<open>The serving shell\<close>

subsection \<open>Collaborators and configuration\<close>

text \<open>
  The decoder and the engines are libraries outside the repository. They are parameters
  of the model; each may raise. \<open>'m\<close> is the type of a loaded model.
  \<^item> \<open>cv2_imdecode\<close>: \<^verbatim>\<open>cv2.imdecode(np.frombuffer(image_bytes, np.uint8), cv2.IMREAD_COLOR)\<close>,
    which returns \<^verbatim>\<open>None\<close> for bytes that are no image and raises on an empty buffer;
  \<^item> \<open>RapidOCR_new\<close>: the constructor \<^verbatim>\<open>RapidOCR()\<close>; \<open>RapidOCR_call\<close>: \<^verbatim>\<open>rapid_ocr(img)\<close>,
    a pair whose first component is the raw result;
  \<^item> \<open>utils_clip_*\<close>: the functions of the module \<^verbatim>\<open>utils.clip\<close>; the inference
    functions take the global model variable as it is, loaded or \<^verbatim>\<open>None\<close>.
  The other fields are the module-level configuration read at start.
\<close>

type_synonym bytes = "8 word list"

record image =
  shape :: "nat \<times> nat \<times> nat"
  pixels :: bytes

record 'm env =
  api_auth_key :: string
  server_restart_time :: int
  env_auto_load_txt_modal :: bool
  sys_executable :: string
  sys_argv :: "string list"
  cv2_imdecode :: "bytes \<Rightarrow> py_exception + image option"
  RapidOCR_new :: "py_exception + 'm"
  RapidOCR_call :: "'m \<Rightarrow> image \<Rightarrow> py_exception + (detection list option \<times> pyfloat list)"
  utils_clip_load_img_model :: "py_exception + 'm"
  utils_clip_load_txt_model :: "py_exception + 'm"
  utils_clip_process_image :: "image option \<Rightarrow> 'm option \<Rightarrow> py_exception + pyfloat list"
  utils_clip_process_txt :: "string \<Rightarrow> 'm option \<Rightarrow> py_exception + pyfloat list"

subsection \<open>Process state\<close>

text \<open>
  The module's globals, the \<^verbatim>\<open>threading.Timer\<close> objects started so far (the global
  \<^verbatim>\<open>restart_timer\<close> refers to one of them by position), the time, and a log of the calls
  made to the outside, in order: \<open>Construct k\<close> when the constructor of kind \<open>k\<close> is
  called and \<open>Loaded k\<close> when its result is assigned to the global, \<open>FileRead\<close> for
  \<^verbatim>\<open>file.read()\<close>, \<open>Imdecode\<close> for the decoder, \<open>Infer k\<close> for a call of the engine of
  kind \<open>k\<close>, \<open>Print\<close> for \<^verbatim>\<open>print(e)\<close> and \<open>Execl\<close> for \<^verbatim>\<open>os.execl\<close>.
\<close>

datatype kind = OCR | ClipImage | ClipText

datatype event =
    Construct kind
  | Loaded kind
  | FileRead
  | Imdecode
  | Infer kind
  | Print string
  | Execl string "string list"

record timer =
  deadline :: int
  cancelled :: bool

record 'm state =
  restart_timer :: "nat option"
  rapid_ocr :: "'m option"
  clip_img_model :: "'m option"
  clip_txt_model :: "'m option"
  timers :: "timer list"
  clock :: int
  trace :: "event list"

definition log :: "event \<Rightarrow> 'm state \<Rightarrow> 'm state" where
  "log ev s = s\<lparr>trace := trace s @ [ev]\<rparr>"

text \<open>The globals as the module body leaves them, at time \<open>t\<close>.\<close>

definition initial :: "int \<Rightarrow> 'm state" where
  "initial t = \<lparr>restart_timer = None, rapid_ocr = None, clip_img_model = None,
                clip_txt_model = None, timers = [], clock = t, trace = []\<rparr>"

subsection \<open>Lazy loading\<close>

text \<open>Each loader returns the exception of the constructor, if it raised.\<close>

definition load_ocr_model :: "'m env \<Rightarrow> 'm state \<Rightarrow> py_exception option \<times> 'm state" where
  "load_ocr_model env s =
     (if rapid_ocr s = None then
        (case RapidOCR_new env of
           Inl e \<Rightarrow> (Some e, log (Construct OCR) s)
         | Inr m \<Rightarrow> (None, log (Loaded OCR) ((log (Construct OCR) s)\<lparr>rapid_ocr := Some m\<rparr>)))
      else (None, s))"

definition load_clip_img_model :: "'m env \<Rightarrow> 'm state \<Rightarrow> py_exception option \<times> 'm state" where
  "load_clip_img_model env s =
     (if clip_img_model s = None then
        (case utils_clip_load_img_model env of
           Inl e \<Rightarrow> (Some e, log (Construct ClipImage) s)
         | Inr m \<Rightarrow> (None, log (Loaded ClipImage)
                             ((log (Construct ClipImage) s)\<lparr>clip_img_model := Some m\<rparr>)))
      else (None, s))"

definition load_clip_txt_model :: "'m env \<Rightarrow> 'm state \<Rightarrow> py_exception option \<times> 'm state" where
  "load_clip_txt_model env s =
     (if clip_txt_model s = None then
        (case utils_clip_load_txt_model env of
           Inl e \<Rightarrow> (Some e, log (Construct ClipText) s)
         | Inr m \<Rightarrow> (None, log (Loaded ClipText)
                             ((log (Construct ClipText) s)\<lparr>clip_txt_model := Some m\<rparr>)))
      else (None, s))"

definition startup_event :: "'m env \<Rightarrow> 'm state \<Rightarrow> py_exception option \<times> 'm state" where
  "startup_event env s =
     (if env_auto_load_txt_modal env then load_clip_txt_model env s else (None, s))"

subsection \<open>The idle-restart timer\<close>

text \<open>
  The middleware \<^verbatim>\<open>check_activity\<close>, up to \<^verbatim>\<open>call_next\<close>: cancel the timer that
  \<^verbatim>\<open>restart_timer\<close> refers to, if any, then start a new one that fires
  \<^verbatim>\<open>server_restart_time\<close> seconds from now.
\<close>

definition cancel :: "nat \<Rightarrow> timer list \<Rightarrow> timer list" where
  "cancel i ts = (if i < length ts then ts[i := (ts ! i)\<lparr>cancelled := True\<rparr>] else ts)"

definition check_activity :: "'m env \<Rightarrow> 'm state \<Rightarrow> 'm state" where
  "check_activity env s =
     (let ts = (case restart_timer s of Some i \<Rightarrow> cancel i (timers s) | None \<Rightarrow> timers s)
      in s\<lparr>restart_timer := Some (length ts),
            timers := ts @ [\<lparr>deadline = clock s + server_restart_time env, cancelled = False\<rparr>]\<rparr>)"

subsection \<open>Responses\<close>

text \<open>
  The bodies the handlers return:
  \<^item> \<open>Html\<close>: the status page;
  \<^item> \<open>CheckPass\<close>: \<^verbatim>\<open>{'result': 'pass', 'title': ..., 'help': ...}\<close>;
  \<^item> \<open>Pass\<close>: \<^verbatim>\<open>{'result': 'pass'}\<close>;
  \<^item> \<open>OcrResult r\<close>: \<^verbatim>\<open>{'result': r}\<close> with the three lists of \<open>r\<close>;
  \<^item> \<open>Embedding xs\<close>: \<^verbatim>\<open>{'result': xs}\<close>;
  \<^item> \<open>SoftFail msg\<close>: \<^verbatim>\<open>{'result': [], 'msg': msg}\<close>.
  A request ends with a returned body, with an \<^verbatim>\<open>HTTPException\<close> (a status and a
  detail), with an exception that no handler caught, or with the process replaced by
  \<^verbatim>\<open>os.execl\<close>, which does not return.
\<close>

datatype response =
    Html
  | CheckPass
  | Pass
  | OcrResult ocr_result
  | Embedding "string list"
  | SoftFail string

datatype outcome =
    Returned response
  | HTTPException nat string
  | Unhandled py_exception
  | Replaced string "string list"

subsection \<open>Handlers\<close>

definition verify_header :: "'m env \<Rightarrow> string \<Rightarrow> outcome + string" where
  "verify_header env api_key =
     (if api_key \<noteq> api_auth_key env then Inl (HTTPException 401 ''Invalid API key'')
      else Inr api_key)"

text \<open>\<^verbatim>\<open>os.execl(python, python, *sys.argv)\<close>\<close>

definition restart_program :: "'m env \<Rightarrow> 'm state \<Rightarrow> outcome \<times> 'm state" where
  "restart_program env s =
     (let python = sys_executable env
      in (Replaced python (python # sys_argv env), log (Execl python (python # sys_argv env)) s))"

definition top_info :: "'m state \<Rightarrow> outcome \<times> 'm state" where
  "top_info s = (Returned Html, s)"

text \<open>The source names the next three handlers \<^verbatim>\<open>check_req\<close>; the route tells them apart.\<close>

definition check_req :: "'m state \<Rightarrow> outcome \<times> 'm state" where
  "check_req s = (Returned CheckPass, s)"

definition check_req_restart :: "'m state \<Rightarrow> outcome \<times> 'm state" where
  "check_req_restart s = (Returned Pass, s)"

definition check_req_restart_v2 :: "'m env \<Rightarrow> 'm state \<Rightarrow> outcome \<times> 'm state" where
  "check_req_restart_v2 env s = restart_program env s"

text \<open>
  The body of the \<^verbatim>\<open>try\<close> of \<^verbatim>\<open>/ocr\<close>. Calling the global \<^verbatim>\<open>rapid_ocr\<close> while it is
  \<^verbatim>\<open>None\<close> raises a \<^verbatim>\<open>TypeError\<close>; reading \<^verbatim>\<open>img.shape\<close> of \<^verbatim>\<open>None\<close> an \<^verbatim>\<open>AttributeError\<close>.
\<close>

definition ocr_try :: "'m env \<Rightarrow> bytes \<Rightarrow> 'm state \<Rightarrow> (py_exception + response) \<times> 'm state" where
  "ocr_try env image_bytes s0 =
     (let s1 = log Imdecode s0 in
      case cv2_imdecode env image_bytes of
        Inl e \<Rightarrow> (Inl e, s1)
      | Inr None \<Rightarrow> (Inl (Exception (quoted ''NoneType'' @ '' object has no attribute '' @ quoted ''shape'')), s1)
      | Inr (Some img) \<Rightarrow>
          (case shape img of (height, width, _) \<Rightarrow>
             if width > 10000 \<or> height > 10000
             then (Inr (SoftFail ''height or width out of range''), s1)
             else
               (case rapid_ocr s1 of
                  None \<Rightarrow> (Inl (Exception (quoted ''NoneType'' @ '' object is not callable'')), s1)
                | Some m \<Rightarrow>
                    (let s2 = log (Infer OCR) s1 in
                     case RapidOCR_call env m img of
                       Inl e \<Rightarrow> (Inl e, s2)
                     | Inr result \<Rightarrow>
                         (case trans_result (fst result) of
                            Inl e \<Rightarrow> (Inl e, s2)
                          | Inr r \<Rightarrow> (Inr (OcrResult r), s2))))))"

text \<open>\<^verbatim>\<open>except Exception as e: print(e); return {'result': [], 'msg': str(e)}\<close>\<close>

definition except_soft_fail :: "(py_exception + response) \<times> 'm state \<Rightarrow> outcome \<times> 'm state" where
  "except_soft_fail r =
     (case r of
        (Inr resp, s) \<Rightarrow> (Returned resp, s)
      | (Inl e, s) \<Rightarrow> (Returned (SoftFail (str_exc e)), log (Print (str_exc e)) s))"

definition process_image :: "'m env \<Rightarrow> bytes \<Rightarrow> 'm state \<Rightarrow> outcome \<times> 'm state" where
  "process_image env file s =
     (case load_ocr_model env s of
        (Some e, s1) \<Rightarrow> (Unhandled e, s1)
      | (None, s1) \<Rightarrow> except_soft_fail (ocr_try env file (log FileRead s1)))"

definition clip_img_try :: "'m env \<Rightarrow> bytes \<Rightarrow> 'm state \<Rightarrow> (py_exception + response) \<times> 'm state" where
  "clip_img_try env image_bytes s0 =
     (let s1 = log Imdecode s0 in
      case cv2_imdecode env image_bytes of
        Inl e \<Rightarrow> (Inl e, s1)
      | Inr img \<Rightarrow>
          (let s2 = log (Infer ClipImage) s1 in
           case utils_clip_process_image env img (clip_img_model s1) of
             Inl e \<Rightarrow> (Inl e, s2)
           | Inr result \<Rightarrow> (Inr (Embedding (map (format_f 16) result)), s2)))"

definition clip_process_image :: "'m env \<Rightarrow> bytes \<Rightarrow> 'm state \<Rightarrow> outcome \<times> 'm state" where
  "clip_process_image env file s =
     (case load_clip_img_model env s of
        (Some e, s1) \<Rightarrow> (Unhandled e, s1)
      | (None, s1) \<Rightarrow> except_soft_fail (clip_img_try env file (log FileRead s1)))"

definition clip_process_txt :: "'m env \<Rightarrow> string \<Rightarrow> 'm state \<Rightarrow> outcome \<times> 'm state" where
  "clip_process_txt env text s =
     (case load_clip_txt_model env s of
        (Some e, s1) \<Rightarrow> (Unhandled e, s1)
      | (None, s1) \<Rightarrow>
          (let s2 = log (Infer ClipText) s1 in
           case utils_clip_process_txt env text (clip_txt_model s1) of
             Inl e \<Rightarrow> (Unhandled e, s2)
           | Inr result \<Rightarrow> (Returned (Embedding (map (format_f 16) result)), s2)))"

subsection \<open>Routing\<close>

text \<open>
  A request that the framework has parsed: the route, the \<^verbatim>\<open>api-key\<close> header of a
  protected route, and the uploaded file or the \<^verbatim>\<open>text\<close> field.
\<close>

datatype request =
    GetRoot
  | PostCheck string
  | PostRestart string
  | PostRestartV2 string
  | PostOcr string bytes
  | PostClipImg string bytes
  | PostClipTxt string string

text \<open>\<^verbatim>\<open>Depends(verify_header)\<close>: the handler runs only if the dependency returns.\<close>

definition depends ::
  "'m env \<Rightarrow> string \<Rightarrow> ('m state \<Rightarrow> outcome \<times> 'm state) \<Rightarrow> 'm state \<Rightarrow> outcome \<times> 'm state" where
  "depends env api_key handler s =
     (case verify_header env api_key of Inl err \<Rightarrow> (err, s) | Inr _ \<Rightarrow> handler s)"

fun call_next :: "'m env \<Rightarrow> request \<Rightarrow> 'm state \<Rightarrow> outcome \<times> 'm state" where
  "call_next env GetRoot s = top_info s"
| "call_next env (PostCheck k) s = depends env k check_req s"
| "call_next env (PostRestart k) s = depends env k check_req_restart s"
| "call_next env (PostRestartV2 k) s = depends env k (check_req_restart_v2 env) s"
| "call_next env (PostOcr k file) s = depends env k (process_image env file) s"
| "call_next env (PostClipImg k file) s = depends env k (clip_process_image env file) s"
| "call_next env (PostClipTxt k text) s = depends env k (clip_process_txt env text) s"

text \<open>One request through the application: the middleware, then the route.\<close>

definition app :: "'m env \<Rightarrow> request \<Rightarrow> 'm state \<Rightarrow> outcome \<times> 'm state" where
  "app env req s = call_next env req (check_activity env s)"

subsection \<open>Routes and their handlers\<close>

fun api_key_of :: "request \<Rightarrow> string option" where
  "api_key_of GetRoot = None"
| "api_key_of (PostCheck k) = Some k"
| "api_key_of (PostRestart k) = Some k"
| "api_key_of (PostRestartV2 k) = Some k"
| "api_key_of (PostOcr k file) = Some k"
| "api_key_of (PostClipImg k file) = Some k"
| "api_key_of (PostClipTxt k text) = Some k"

fun route_handler :: "'m env \<Rightarrow> request \<Rightarrow> 'm state \<Rightarrow> outcome \<times> 'm state" where
  "route_handler env GetRoot = top_info"
| "route_handler env (PostCheck k) = check_req"
| "route_handler env (PostRestart k) = check_req_restart"
| "route_handler env (PostRestartV2 k) = check_req_restart_v2 env"
| "route_handler env (PostOcr k file) = process_image env file"
| "route_handler env (PostClipImg k file) = clip_process_image env file"
| "route_handler env (PostClipTxt k text) = clip_process_txt env text"

text \<open>A detection box with four corner points of two coordinates each.\<close>

definition is_quad :: "dt_box \<Rightarrow> bool" where
  "is_quad b = (length b = 4 \<and> list_all (\<lambda>p. length p = 2) b)"

text \<open>What a model variable holds after its loader has run: the model it held, or
  the one the constructor returned, or still nothing if the constructor raised.\<close>

definition loaded_with :: "'m option \<Rightarrow> py_exception + 'm \<Rightarrow> 'm option" where
  "loaded_with slot ctor =
     (case slot of
        Some m \<Rightarrow> Some m
      | None \<Rightarrow> (case ctor of Inr m \<Rightarrow> Some m | Inl e \<Rightarrow> None))"

text \<open>The events that a loader adds to the log.\<close>

definition load_events :: "kind \<Rightarrow> 'm option \<Rightarrow> event list" where
  "load_events k slot = (if slot = None then [Construct k, Loaded k] else [])"

subsection \<open>A concrete installation\<close>

text \<open>
  Stand-ins for the libraries, for running the model on concrete requests: a decoder
  that reads a height and a width from four bytes, an OCR engine that finds one line of
  text, and CLIP encoders that return a vector of two components.
\<close>

definition ten :: pyfloat where
  "ten = Finite False 5629499534213120 (- 49)"

definition demo_decode :: "bytes \<Rightarrow> py_exception + image option" where
  "demo_decode b =
     (if b = [] then Inl (Exception ''buffer is empty'')
      else if length b = 4 then
        Inr (Some \<lparr>shape = (unat (b ! 0) * 256 + unat (b ! 1),
                           unat (b ! 2) * 256 + unat (b ! 3), 3),
                  pixels = b\<rparr>)
      else Inr None)"

definition demo_detections :: "detection list" where
  "demo_detections =
     [([[ten, Finite False 5629499534213120 (- 48)],
        [Finite False 7740561859543040 (- 46), Finite False 5629499534213120 (- 48)],
        [Finite False 7740561859543040 (- 46), Finite False 7036874417766400 (- 47)],
        [ten, Finite False 7036874417766400 (- 47)]],
       ''hello'', Finite False 8444249301319680 (- 53))]"

definition demo_vector :: "pyfloat list" where
  "demo_vector = [Finite False 4503599627370496 (- 53), Finite True 6755399441055744 (- 53)]"

definition demo_env :: "nat env" where
  "demo_env =
     \<lparr>api_auth_key = ''mt_photos_ai_extra'',
      server_restart_time = 300,
      env_auto_load_txt_modal = False,
      sys_executable = ''/usr/bin/python3'',
      sys_argv = [''server.py''],
      cv2_imdecode = demo_decode,
      RapidOCR_new = Inr 1,
      RapidOCR_call = (\<lambda>m img. Inr (Some demo_detections, [])),
      utils_clip_load_img_model = Inr 2,
      utils_clip_load_txt_model = Inr 3,
      utils_clip_process_image =
        (\<lambda>img m. case img of None \<Rightarrow> Inl (Exception ''image is None'')
                   | Some i \<Rightarrow> Inr demo_vector),
      utils_clip_process_txt = (\<lambda>text m. Inr demo_vector)\<rparr>"

text \<open>The same installation with engines that are busy.\<close>

definition busy_env :: "nat env" where
  "busy_env = demo_env\<lparr>RapidOCR_call := (\<lambda>m img. Inl (Exception ''Infer Request is busy'')),
                 utils_clip_process_image :=
                   (\<lambda>img m. Inl (Exception ''Infer Request is busy'')),
                 utils_clip_process_txt :=
                   (\<lambda>text m. Inl (Exception ''Infer Request is busy''))\<rparr>"

text \<open>Four bytes that \<open>demo_decode\<close> reads as an image 1 pixel high and 10001 wide.\<close>

definition wide_file :: bytes where
  "wide_file = [0, 1, 39, 17]"

text \<open>Four bytes that it reads as an image of one pixel, and three that are no image.\<close>

definition small_file :: bytes where
  "small_file = [0, 1, 0, 1]"

definition corrupt_file :: bytes where
  "corrupt_file = [1, 2, 3]"

text \<open>An installation whose model files are missing: every constructor raises.\<close>

definition broken_env :: "nat env" where
  "broken_env = demo_env\<lparr>RapidOCR_new := Inl (Exception ''model file not found''),
                   utils_clip_load_img_model := Inl (Exception ''model file not found''),
                   utils_clip_load_txt_model := Inl (Exception ''model file not found'')\<rparr>"

subsection \<open>The process over time\<close>



datatype step = Request request | Elapse nat


text \<open>A fresh process at time \<open>t\<close>: the module body, then \<^verbatim>\<open>startup_event\<close>.\<close>

definition boot :: "'m env \<Rightarrow> int \<Rightarrow> 'm state" where
  "boot env t = snd (startup_event env (initial t))"









subsection \<open>Concurrent requests\<close>

text \<open>
  The handlers are coroutines (\<^verbatim>\<open>async def\<close>) on one event loop: a request runs until
  it awaits, and only then can another request run. The code of this module awaits in
  three places: the middleware awaits \<^verbatim>\<open>call_next\<close>, the framework resolves the
  dependency \<^verbatim>\<open>verify_header\<close> and calls the handler, and the two image handlers await
  \<^verbatim>\<open>file.read()\<close> between the loader and the \<^verbatim>\<open>try\<close>. So a request goes through up to
  four pieces, each of which runs without interruption:
  \<^item> \<open>Arrived\<close>: the middleware up to \<^verbatim>\<open>call_next\<close>;
  \<^item> \<open>Authenticating\<close>: \<^verbatim>\<open>verify_header\<close>;
  \<^item> \<open>Handling\<close>: the handler up to its first \<^verbatim>\<open>await\<close> (for \<^verbatim>\<open>/ocr\<close> and
    \<^verbatim>\<open>/clip/img\<close> that is the loader), or to its end;
  \<^item> \<open>Reading\<close>: the rest of an image handler, from \<^verbatim>\<open>file.read()\<close> on.
\<close>

datatype task =
    Arrived request
  | Authenticating request
  | Handling request
  | Reading request
  | Done outcome

fun step_task :: "'m env \<Rightarrow> task \<Rightarrow> 'm state \<Rightarrow> task \<times> 'm state" where
  "step_task env (Arrived req) s = (Authenticating req, check_activity env s)"
| "step_task env (Authenticating req) s =
     (case api_key_of req of
        None \<Rightarrow> (Handling req, s)
      | Some k \<Rightarrow>
          (case verify_header env k of
             Inl err \<Rightarrow> (Done err, s)
           | Inr _ \<Rightarrow> (Handling req, s)))"
| "step_task env (Handling (PostOcr k file)) s =
     (case load_ocr_model env s of
        (Some e, s1) \<Rightarrow> (Done (Unhandled e), s1)
      | (None, s1) \<Rightarrow> (Reading (PostOcr k file), s1))"
| "step_task env (Handling (PostClipImg k file)) s =
     (case load_clip_img_model env s of
        (Some e, s1) \<Rightarrow> (Done (Unhandled e), s1)
      | (None, s1) \<Rightarrow> (Reading (PostClipImg k file), s1))"
| "step_task env (Handling req) s =
     (case route_handler env req s of (out, s') \<Rightarrow> (Done out, s'))"
| "step_task env (Reading (PostOcr k file)) s =
     (case except_soft_fail (ocr_try env file (log FileRead s)) of
        (out, s') \<Rightarrow> (Done out, s'))"
| "step_task env (Reading (PostClipImg k file)) s =
     (case except_soft_fail (clip_img_try env file (log FileRead s)) of
        (out, s') \<Rightarrow> (Done out, s'))"
| "step_task env (Reading req) s = (Reading req, s)"
| "step_task env (Done out) s = (Done out, s)"

text \<open>
  The requests in flight and the process state they share. A schedule says, event by
  event, that a new request arrives or which request in flight runs its next piece.
  Nothing runs any more once \<^verbatim>\<open>os.execl\<close> has replaced the process.
\<close>

record 'm pool =
  tasks :: "task list"
  shared :: "'m state"

datatype sched = Arrive request | Resume nat

fun replaced :: "task \<Rightarrow> bool" where
  "replaced (Done (Replaced exe args)) = True"
| "replaced _ = False"

definition resume :: "'m env \<Rightarrow> nat \<Rightarrow> 'm pool \<Rightarrow> 'm pool" where
  "resume env i p =
     (if i < length (tasks p) \<and> \<not> list_ex replaced (tasks p) then
        (case step_task env (tasks p ! i) (shared p) of
           (t', s') \<Rightarrow> \<lparr>tasks = (tasks p)[i := t'], shared = s'\<rparr>)
      else p)"

fun run_pool :: "'m env \<Rightarrow> sched list \<Rightarrow> 'm pool \<Rightarrow> 'm pool" where
  "run_pool env [] p = p"
| "run_pool env (Arrive req # rest) p =
     run_pool env rest (p\<lparr>tasks := tasks p @ [Arrived req]\<rparr>)"
| "run_pool env (Resume i # rest) p = run_pool env rest (resume env i p)"

text \<open>A process that has just started, with no request in flight.\<close>

definition fresh :: "'m env \<Rightarrow> int \<Rightarrow> 'm pool" where
  "fresh env t = \<lparr>tasks = [], shared = boot env t\<rparr>"

text \<open>The global variable of a model kind, and the constructor that fills it.\<close>

fun slot :: "kind \<Rightarrow> 'm state \<Rightarrow> 'm option" where
  "slot OCR s = rapid_ocr s"
| "slot ClipImage s = clip_img_model s"
| "slot ClipText s = clip_txt_model s"

fun ctor :: "'m env \<Rightarrow> kind \<Rightarrow> py_exception + 'm" where
  "ctor env OCR = RapidOCR_new env"
| "ctor env ClipImage = utils_clip_load_img_model env"
| "ctor env ClipText = utils_clip_load_txt_model env"

text \<open>
  The state of one kind is consistent: the log has one \<open>Loaded\<close> event if the variable
  holds a model and none otherwise, the model it holds is the one the constructor
  returned, and if the constructor returns a model, every call of it was followed by
  the assignment.
\<close>

definition single_load :: "'m env \<Rightarrow> kind \<Rightarrow> 'm state \<Rightarrow> bool" where
  "single_load env k s =
     (count_list (trace s) (Loaded k) = (if slot k s = None then 0 else 1)
      \<and> (\<forall>m. slot k s = Some m \<longrightarrow> ctor env k = Inr m)
      \<and> (\<forall>m. ctor env k = Inr m \<longrightarrow>
            count_list (trace s) (Construct k) = count_list (trace s) (Loaded k)))"

text \<open>Two states with the same models and the same loading events in their logs.\<close>

fun model_event :: "event \<Rightarrow> bool" where
  "model_event (Construct k) = True"
| "model_event (Loaded k) = True"
| "model_event _ = False"

definition same_models :: "'m state \<Rightarrow> 'm state \<Rightarrow> bool" where
  "same_models s s' =
     (rapid_ocr s' = rapid_ocr s \<and> clip_img_model s' = clip_img_model s
      \<and> clip_txt_model s' = clip_txt_model s
      \<and> filter model_event (trace s') = filter model_event (trace s))"

text \<open>
  Two requests to \<^verbatim>\<open>/ocr\<close> that arrive together, neither model loaded: each runs its
  middleware, then each its authentication, then each its loader, and only then do the
  two read their files.
\<close>

definition two_first_requests :: "sched list" where
  "two_first_requests =
     [Arrive (PostOcr ''mt_photos_ai_extra'' wide_file),
      Arrive (PostOcr ''mt_photos_ai_extra'' wide_file),
      Resume 0, Resume 1, Resume 0, Resume 1, Resume 0, Resume 1, Resume 0, Resume 1]"

subsection \<open>Reading a decimal numeral\<close>

text \<open>
  The number that a plain decimal numeral denotes: \<open>read_fixed str = Some (neg, n, k)\<close>
  says that \<open>str\<close> is an optional minus sign, digits, a point and \<open>k\<close> more digits, and
  that it denotes \<open>n / 10^k\<close>, negated if \<open>neg\<close>; \<open>n\<close> is the number that the digits
  spell without the point.
\<close>

definition digit_value :: "char \<Rightarrow> nat" where
  "digit_value c = length (takeWhile (\<lambda>d. d \<noteq> c) ''0123456789'')"

fun digits_acc :: "nat \<Rightarrow> string \<Rightarrow> nat" where
  "digits_acc a [] = a"
| "digits_acc a (c # cs) = digits_acc (a * 10 + digit_value c) cs"

definition read_fixed :: "string \<Rightarrow> (bool \<times> nat \<times> nat) option" where
  "read_fixed str =
     (let neg = (case str of c # cs \<Rightarrow> c = CHR ''-'' | [] \<Rightarrow> False);
          body = (if neg then tl str else str);
          ip = takeWhile is_digit body;
          rest = dropWhile is_digit body
      in case rest of
           c # fp \<Rightarrow> (if c = CHR ''.'' \<and> ip \<noteq> [] \<and> list_all is_digit fp
                      then Some (neg, digits_acc 0 (ip @ fp), length fp) else None)
         | [] \<Rightarrow> None)"

text \<open>
  \<open>n\<close> is an integer nearest to \<open>m * 2^e * 10^d\<close>: equal to it when that is an
  integer, at most one half away from it otherwise.
\<close>

definition nearest_scaled :: "nat \<Rightarrow> nat \<Rightarrow> int \<Rightarrow> nat \<Rightarrow> bool" where
  "nearest_scaled d m e n =
     (if 0 \<le> e then n = m * 2 ^ nat e * 10 ^ d
      else 2 * \<bar>int n * 2 ^ nat (- e) - int (m * 10 ^ d)\<bar> \<le> 2 ^ nat (- e))"

text \<open>
  Two more installations: an OCR engine that returns a box with a single coordinate, and
  a CLIP image encoder that returns a vector with a NaN, as a normalisation that divides
  zero by zero does.
\<close>

definition ragged_env :: "nat env" where
  "ragged_env = demo_env\<lparr>RapidOCR_call :=
                   (\<lambda>m img. Inr (Some [([[ten]], ''hello'', ten)], []))\<rparr>"

definition nan_env :: "nat env" where
  "nan_env = demo_env\<lparr>utils_clip_process_image := (\<lambda>img m. Inr [NaN, ten])\<rparr>"

section \<open>Properties\<close>

subsection \<open>Authentication\<close>

lemma depends_eq:
  "depends env k h s =
     (if k = api_auth_key env then h s else (HTTPException 401 ''Invalid API key'', s))"
  by (simp add: depends_def verify_header_def)

lemma except_soft_fail_Returned: "\<exists>resp. fst (except_soft_fail r) = Returned resp"
  by (cases r) (auto simp: except_soft_fail_def split: sum.splits)

lemma process_image_no_http: "fst (process_image env file s) \<noteq> HTTPException c d"
  using except_soft_fail_Returned [of "ocr_try env file (log FileRead (snd (load_ocr_model env s)))"]
  by (auto simp: process_image_def split: prod.splits option.splits)

lemma clip_process_image_no_http: "fst (clip_process_image env file s) \<noteq> HTTPException c d"
  using except_soft_fail_Returned
    [of "clip_img_try env file (log FileRead (snd (load_clip_img_model env s)))"]
  by (auto simp: clip_process_image_def split: prod.splits option.splits)

lemma clip_process_txt_no_http: "fst (clip_process_txt env text s) \<noteq> HTTPException c d"
  by (auto simp: clip_process_txt_def Let_def split: prod.splits option.splits sum.splits)

lemma route_handler_no_http: "fst (route_handler env req s) \<noteq> HTTPException c d"
  by (cases req)
     (simp_all add: top_info_def check_req_def check_req_restart_def check_req_restart_v2_def
        restart_program_def Let_def process_image_no_http clip_process_image_no_http
        clip_process_txt_no_http)

lemma check_activity_globals:
  "rapid_ocr (check_activity env s) = rapid_ocr s"
  "clip_img_model (check_activity env s) = clip_img_model s"
  "clip_txt_model (check_activity env s) = clip_txt_model s"
  "trace (check_activity env s) = trace s"
  "clock (check_activity env s) = clock s"
  by (simp_all add: check_activity_def Let_def)

text \<open>
  C4. A request to a protected route gets past the authentication exactly when its
  \<^verbatim>\<open>api-key\<close> header equals the configured secret: then the route's handler runs
  (after the middleware); otherwise the request ends with status 401, and nothing but
  the middleware's timer has run: no model was loaded and nothing was logged.
\<close>

theorem auth_gate:
  assumes "api_key_of req = Some k"
  shows "(k = api_auth_key env \<longrightarrow>
            app env req s = route_handler env req (check_activity env s))
       \<and> (k \<noteq> api_auth_key env \<longrightarrow>
            app env req s = (HTTPException 401 ''Invalid API key'', check_activity env s)
            \<and> rapid_ocr (snd (app env req s)) = rapid_ocr s
            \<and> clip_img_model (snd (app env req s)) = clip_img_model s
            \<and> clip_txt_model (snd (app env req s)) = clip_txt_model s
            \<and> trace (snd (app env req s)) = trace s)
       \<and> (fst (app env req s) = HTTPException 401 ''Invalid API key''
            \<longleftrightarrow> k \<noteq> api_auth_key env)"
  using assms route_handler_no_http [of env req "check_activity env s" 401 "''Invalid API key''"]
  by (cases req) (auto simp: app_def depends_eq check_activity_globals)

theorem auth_gate_witness:
  "api_key_of (PostOcr ''guess'' wide_file) = Some ''guess''
   \<and> app demo_env (PostOcr ''guess'' wide_file) (initial 0)
       = (HTTPException 401 ''Invalid API key'', check_activity demo_env (initial 0))
   \<and> api_key_of (PostCheck ''mt_photos_ai_extra'') = Some ''mt_photos_ai_extra''
   \<and> app demo_env (PostCheck ''mt_photos_ai_extra'') (initial 0)
       = (Returned CheckPass, check_activity demo_env (initial 0))"
  using auth_gate [of "PostOcr ''guess'' wide_file" "''guess''" demo_env "initial 0"]
        auth_gate [of "PostCheck ''mt_photos_ai_extra''" "''mt_photos_ai_extra''" demo_env
                     "initial 0"]
  by (simp add: demo_env_def check_req_def)

subsection \<open>The restart routes\<close>

text \<open>
  C6. With the right key, \<^verbatim>\<open>/restart\<close> returns \<^verbatim>\<open>{'result': 'pass'}\<close> and changes
  nothing but the middleware's timer, so the process goes on; \<^verbatim>\<open>/restart_v2\<close> ends
  with the process replaced by the interpreter \<^verbatim>\<open>sys.executable\<close>, run with the
  arguments \<^verbatim>\<open>sys.argv\<close> it was started with.
\<close>

theorem restart_routes:
  "app env (PostRestart (api_auth_key env)) s = (Returned Pass, check_activity env s)
   \<and> app env (PostRestartV2 (api_auth_key env)) s =
       (Replaced (sys_executable env) (sys_executable env # sys_argv env),
        log (Execl (sys_executable env) (sys_executable env # sys_argv env))
          (check_activity env s))"
  by (simp add: app_def depends_eq check_req_restart_def check_req_restart_v2_def
        restart_program_def Let_def)

subsection \<open>The OCR normalizer\<close>

lemma make_box_quad: "is_quad b \<Longrightarrow> \<exists>bx. make_box b = Inr bx"
  by (auto simp: is_quad_def make_box_def coord_def index_def list_all_length split: sum.splits)

lemma trans_loop_total:
  "list_all (\<lambda>(b, t, sc). is_quad b) rs \<Longrightarrow> \<exists>out. trans_loop rs acc = Inr out"
proof (induction rs arbitrary: acc)
  case Nil
  then show ?case by simp
next
  case (Cons r rs)
  obtain b t sc where r: "r = (b, t, sc)" by (cases r) auto
  with Cons.prems obtain bx where "make_box b = Inr bx"
    using make_box_quad by auto
  with Cons r show ?case by simp
qed

lemma trans_loop_content:
  "trans_loop rs acc = Inr out \<Longrightarrow>
     texts out = texts acc @ map (\<lambda>(b, t, sc). t) rs \<and>
     scores out = scores acc @ map (\<lambda>(b, t, sc). format_f 2 sc) rs \<and>
     map Inr (boxes out) = map Inr (boxes acc) @ map (\<lambda>(b, t, sc). make_box b) rs"
proof (induction rs arbitrary: acc)
  case Nil
  then show ?case by simp
next
  case (Cons r rs)
  obtain b t sc where r: "r = (b, t, sc)" by (cases r) auto
  from Cons.prems r obtain bx where bx: "make_box b = Inr bx"
    by (auto split: sum.splits)
  with Cons.prems r have
    "trans_loop rs \<lparr>texts = texts acc @ [t], scores = scores acc @ [format_f 2 sc],
                    boxes = boxes acc @ [bx]\<rparr> = Inr out"
    by simp
  from Cons.IH [OF this] show ?case by (simp add: r bx)
qed

text \<open>
  C7. \<^verbatim>\<open>trans_result(None)\<close> is three empty lists, not an error. On a list of
  detections whose boxes are quadrilaterals it returns a result, and whenever it returns
  one, the three lists have the length of the raw list and position \<open>i\<close> of each comes
  from detection \<open>i\<close>: its text, its score with two decimals, and the box made from its
  corner points.
\<close>

theorem trans_result_aligned:
  "trans_result None = Inr \<lparr>texts = [], scores = [], boxes = []\<rparr>
   \<and> (list_all (\<lambda>(b, t, sc). is_quad b) rs \<longrightarrow> (\<exists>out. trans_result (Some rs) = Inr out))
   \<and> (trans_result (Some rs) = Inr out \<longrightarrow>
        length (texts out) = length rs \<and> length (scores out) = length rs \<and>
        length (boxes out) = length rs \<and>
        (\<forall>i < length rs. case rs ! i of (b, t, sc) \<Rightarrow>
           texts out ! i = t \<and> scores out ! i = format_f 2 sc \<and> make_box b = Inr (boxes out ! i)))"
proof (intro conjI impI)
  show "trans_result None = Inr \<lparr>texts = [], scores = [], boxes = []\<rparr>"
    by (simp add: trans_result_def)
next
  assume "list_all (\<lambda>(b, t, sc). is_quad b) rs"
  then show "\<exists>out. trans_result (Some rs) = Inr out"
    by (simp add: trans_result_def trans_loop_total)
next
  assume "trans_result (Some rs) = Inr out"
  then have c: "texts out = map (\<lambda>(b, t, sc). t) rs"
    "scores out = map (\<lambda>(b, t, sc). format_f 2 sc) rs"
    "map Inr (boxes out) = map (\<lambda>(b, t, sc). make_box b) rs"
    using trans_loop_content [of rs "\<lparr>texts = [], scores = [], boxes = []\<rparr>" out]
    by (simp_all add: trans_result_def)
  show "length (texts out) = length rs" using c(1) by simp
  show "length (scores out) = length rs" using c(2) by simp
  have lb: "length (map Inr (boxes out) :: (py_exception + box) list) = length rs"
    by (simp only: c(3) length_map)
  then show len: "length (boxes out) = length rs" by simp
  show "\<forall>i < length rs. case rs ! i of (b, t, sc) \<Rightarrow>
           texts out ! i = t \<and> scores out ! i = format_f 2 sc \<and> make_box b = Inr (boxes out ! i)"
  proof (intro allI impI)
    fix i assume i: "i < length rs"
    obtain b t sc where r: "rs ! i = (b, t, sc)" by (cases "rs ! i") auto
    have "(map Inr (boxes out) :: (py_exception + box) list) ! i = map (\<lambda>(b, t, sc). make_box b) rs ! i"
      by (simp only: c(3))
    with i len r have "make_box b = Inr (boxes out ! i)" by simp
    with i r c show "case rs ! i of (b, t, sc) \<Rightarrow>
           texts out ! i = t \<and> scores out ! i = format_f 2 sc \<and> make_box b = Inr (boxes out ! i)"
      by simp
  qed
qed

theorem trans_result_aligned_witness:
  "list_all (\<lambda>(b, t, sc). is_quad b) demo_detections
   \<and> (\<exists>out. trans_result (Some demo_detections) = Inr out
          \<and> length (texts out) = 1 \<and> length (scores out) = 1 \<and> length (boxes out) = 1
          \<and> texts out ! 0 = ''hello'')"
proof -
  have q: "list_all (\<lambda>(b, t, sc). is_quad b) demo_detections"
    by (simp add: demo_detections_def is_quad_def)
  with trans_result_aligned [where rs = demo_detections]
  obtain out where out: "trans_result (Some demo_detections) = Inr out"
    by blast
  with trans_result_aligned [where rs = demo_detections and out = out]
  have "length (texts out) = 1 \<and> length (scores out) = 1 \<and> length (boxes out) = 1
        \<and> texts out ! 0 = ''hello''"
    by (simp add: demo_detections_def)
  with q out show ?thesis by blast
qed

subsection \<open>Fixed formatting\<close>

text \<open>\<^verbatim>\<open>"{:.<d>f}"\<close> of a finite float has exactly \<open>d\<close> digits after the point.\<close>

lemma is_digit_nth: "k < 10 \<Longrightarrow> is_digit (''0123456789'' ! k)"
  unfolding is_digit_def by (rule nth_mem) simp

lemma str_nat_digits: "list_all is_digit (str_nat n)"
proof (induction n rule: str_nat.induct)
  case (1 n)
  show ?case
  proof (cases "n < 10")
    case True
    then show ?thesis by (subst str_nat.simps) (simp add: is_digit_nth)
  next
    case False
    with 1 show ?thesis by (subst str_nat.simps) (simp add: is_digit_nth)
  qed
qed

lemma str_nat_nonempty: "str_nat n \<noteq> []"
  by (subst str_nat.simps) simp

lemma str_nat_length: "n < 10 ^ d \<Longrightarrow> 0 < d \<Longrightarrow> length (str_nat n) \<le> d"
proof (induction n arbitrary: d rule: str_nat.induct)
  case (1 n)
  show ?case
  proof (cases "n < 10")
    case True
    with 1(3) show ?thesis by (subst str_nat.simps) simp
  next
    case False
    obtain d' where d: "d = Suc d'" using 1(3) by (cases d) auto
    with 1(2) have small: "n div 10 < 10 ^ d'"
      by (simp add: less_mult_imp_div_less mult.commute)
    have "0 < d'"
    proof (rule ccontr)
      assume "\<not> 0 < d'"
      with d 1(2) False show False by simp
    qed
    with 1(1) [OF False small] have "length (str_nat (n div 10)) \<le> d'" .
    with d False show ?thesis by (subst str_nat.simps) simp
  qed
qed

lemma not_digit: "\<not> is_digit CHR ''.''" "\<not> is_digit CHR ''-''"
  by (simp_all add: is_digit_def)

lemma takeWhile_digits:
  "list_all is_digit ip \<Longrightarrow> takeWhile is_digit (ip @ CHR ''.'' # fp) = ip"
  "list_all is_digit ip \<Longrightarrow> dropWhile is_digit (ip @ CHR ''.'' # fp) = CHR ''.'' # fp"
  by (induction ip) (simp_all add: not_digit)

lemma decimal_places_plain:
  assumes "list_all is_digit ip" "ip \<noteq> []" "list_all is_digit fp"
  shows "decimal_places (ip @ CHR ''.'' # fp) = Some (length fp)"
proof -
  obtain c cs where ip: "ip = c # cs" using assms(2) by (cases ip) auto
  with assms(1) have "c \<noteq> CHR ''-''" using not_digit(2) by auto
  with assms ip show ?thesis
    using takeWhile_digits [OF assms(1), of fp]
    by (simp add: decimal_places_def Let_def)
qed

lemma decimal_places_signed:
  assumes "list_all is_digit ip" "ip \<noteq> []" "list_all is_digit fp"
  shows "decimal_places (CHR ''-'' # ip @ CHR ''.'' # fp) = Some (length fp)"
  using assms takeWhile_digits [OF assms(1), of fp]
  by (simp add: decimal_places_def Let_def)

lemma format_f_places:
  assumes "0 < d"
  shows "decimal_places (format_f d (Finite s m e)) = Some d"
proof -
  define n where "n = decimal_round d m e"
  define ds where "ds = str_nat (n mod 10 ^ d)"
  define fp where "fp = replicate (d - length ds) CHR ''0'' @ ds"
  have "length ds \<le> d"
    unfolding ds_def using assms by (intro str_nat_length) simp_all
  then have len: "length fp = d" by (simp add: fp_def)
  have "is_digit CHR ''0''" by (simp add: is_digit_def)
  then have dig: "list_all is_digit fp"
    using str_nat_digits [of "n mod 10 ^ d"]
    by (auto simp: fp_def ds_def list_all_iff)
  have f: "format_f d (Finite s m e) =
             (if s then ''-'' else []) @ str_nat (n div 10 ^ d) @ CHR ''.'' # fp"
    using assms by (simp add: format_f_def Let_def n_def ds_def fp_def)
  show ?thesis
    using decimal_places_plain [OF str_nat_digits str_nat_nonempty dig, of "n div 10 ^ d"]
          decimal_places_signed [OF str_nat_digits str_nat_nonempty dig, of "n div 10 ^ d"]
    by (simp add: f len)
qed

subsection \<open>Loading before reading\<close>

lemma log_simps:
  "trace (log ev s) = trace s @ [ev]"
  "rapid_ocr (log ev s) = rapid_ocr s"
  "clip_img_model (log ev s) = clip_img_model s"
  "clip_txt_model (log ev s) = clip_txt_model s"
  "restart_timer (log ev s) = restart_timer s"
  "timers (log ev s) = timers s"
  "clock (log ev s) = clock s"
  by (simp_all add: log_def)

lemma load_ocr_model_loaded:
  assumes "loaded_with (rapid_ocr s) (RapidOCR_new env) = Some m"
  shows "\<exists>s1. load_ocr_model env s = (None, s1) \<and> rapid_ocr s1 = Some m
              \<and> trace s1 = trace s @ load_events OCR (rapid_ocr s)"
  using assms
  by (auto simp: load_ocr_model_def loaded_with_def load_events_def log_simps
           split: option.splits sum.splits)

lemma load_ocr_model_raised:
  assumes "loaded_with (rapid_ocr s) (RapidOCR_new env) = None"
  shows "\<exists>e. RapidOCR_new env = Inl e \<and> rapid_ocr s = None
             \<and> load_ocr_model env s = (Some e, log (Construct OCR) s)"
  using assms
  by (auto simp: load_ocr_model_def loaded_with_def split: option.splits sum.splits)

lemma load_clip_img_model_loaded:
  assumes "loaded_with (clip_img_model s) (utils_clip_load_img_model env) = Some m"
  shows "\<exists>s1. load_clip_img_model env s = (None, s1) \<and> clip_img_model s1 = Some m
              \<and> trace s1 = trace s @ load_events ClipImage (clip_img_model s)"
  using assms
  by (auto simp: load_clip_img_model_def loaded_with_def load_events_def log_simps
           split: option.splits sum.splits)

lemma load_clip_img_model_raised:
  assumes "loaded_with (clip_img_model s) (utils_clip_load_img_model env) = None"
  shows "\<exists>e. utils_clip_load_img_model env = Inl e \<and> clip_img_model s = None
             \<and> load_clip_img_model env s = (Some e, log (Construct ClipImage) s)"
  using assms
  by (auto simp: load_clip_img_model_def loaded_with_def split: option.splits sum.splits)

lemma load_clip_txt_model_loaded:
  assumes "loaded_with (clip_txt_model s) (utils_clip_load_txt_model env) = Some m"
  shows "\<exists>s1. load_clip_txt_model env s = (None, s1) \<and> clip_txt_model s1 = Some m
              \<and> trace s1 = trace s @ load_events ClipText (clip_txt_model s)"
  using assms
  by (auto simp: load_clip_txt_model_def loaded_with_def load_events_def log_simps
           split: option.splits sum.splits)

lemma ocr_try_state:
  "\<exists>rest. trace (snd (ocr_try env file s0)) = trace s0 @ Imdecode # rest
          \<and> rapid_ocr (snd (ocr_try env file s0)) = rapid_ocr s0"
  by (auto simp: ocr_try_def Let_def log_simps split: sum.splits option.splits prod.splits)

lemma clip_img_try_state:
  "\<exists>rest. trace (snd (clip_img_try env file s0)) = trace s0 @ Imdecode # rest
          \<and> clip_img_model (snd (clip_img_try env file s0)) = clip_img_model s0"
  by (auto simp: clip_img_try_def Let_def log_simps split: sum.splits option.splits prod.splits)

lemma except_soft_fail_state:
  "\<exists>resp rest. except_soft_fail r = (Returned resp, snd (except_soft_fail r))
     \<and> trace (snd (except_soft_fail r)) = trace (snd r) @ rest
     \<and> rapid_ocr (snd (except_soft_fail r)) = rapid_ocr (snd r)
     \<and> clip_img_model (snd (except_soft_fail r)) = clip_img_model (snd r)"
  by (cases r) (auto simp: except_soft_fail_def log_simps split: sum.splits)

lemma process_image_loaded:
  assumes "loaded_with (rapid_ocr s) (RapidOCR_new env) = Some m"
  shows "\<exists>resp s' rest. process_image env file s = (Returned resp, s')
           \<and> rapid_ocr s' = Some m
           \<and> trace s' = trace s @ load_events OCR (rapid_ocr s) @ FileRead # Imdecode # rest"
proof -
  from load_ocr_model_loaded [OF assms] obtain s1 where
    s1: "load_ocr_model env s = (None, s1)" "rapid_ocr s1 = Some m"
        "trace s1 = trace s @ load_events OCR (rapid_ocr s)" by blast
  define r where "r = ocr_try env file (log FileRead s1)"
  from ocr_try_state [of env "file" "log FileRead s1"] obtain rest where
    t: "trace (snd r) = trace (log FileRead s1) @ Imdecode # rest"
       "rapid_ocr (snd r) = rapid_ocr (log FileRead s1)"
    unfolding r_def by blast
  from except_soft_fail_state [of r] obtain resp rest' where
    e: "except_soft_fail r = (Returned resp, snd (except_soft_fail r))"
       "trace (snd (except_soft_fail r)) = trace (snd r) @ rest'"
       "rapid_ocr (snd (except_soft_fail r)) = rapid_ocr (snd r)" by blast
  have "process_image env file s = except_soft_fail r"
    by (simp add: process_image_def s1 r_def)
  with e(1) have "process_image env file s = (Returned resp, snd (except_soft_fail r))"
    by simp
  moreover from e t s1 have "rapid_ocr (snd (except_soft_fail r)) = Some m"
    by (simp add: log_simps)
  moreover from e t s1 have "trace (snd (except_soft_fail r))
      = trace s @ load_events OCR (rapid_ocr s) @ FileRead # Imdecode # (rest @ rest')"
    by (simp add: log_simps)
  ultimately show ?thesis by blast
qed

lemma process_image_raised:
  assumes "loaded_with (rapid_ocr s) (RapidOCR_new env) = None"
  shows "\<exists>e. RapidOCR_new env = Inl e
           \<and> process_image env file s = (Unhandled e, log (Construct OCR) s)"
  using load_ocr_model_raised [OF assms] by (auto simp: process_image_def)

lemma clip_process_image_loaded:
  assumes "loaded_with (clip_img_model s) (utils_clip_load_img_model env) = Some m"
  shows "\<exists>resp s' rest. clip_process_image env file s = (Returned resp, s')
           \<and> clip_img_model s' = Some m
           \<and> trace s' = trace s @ load_events ClipImage (clip_img_model s)
                          @ FileRead # Imdecode # rest"
proof -
  from load_clip_img_model_loaded [OF assms] obtain s1 where
    s1: "load_clip_img_model env s = (None, s1)" "clip_img_model s1 = Some m"
        "trace s1 = trace s @ load_events ClipImage (clip_img_model s)" by blast
  define r where "r = clip_img_try env file (log FileRead s1)"
  from clip_img_try_state [of env "file" "log FileRead s1"] obtain rest where
    t: "trace (snd r) = trace (log FileRead s1) @ Imdecode # rest"
       "clip_img_model (snd r) = clip_img_model (log FileRead s1)"
    unfolding r_def by blast
  from except_soft_fail_state [of r] obtain resp rest' where
    e: "except_soft_fail r = (Returned resp, snd (except_soft_fail r))"
       "trace (snd (except_soft_fail r)) = trace (snd r) @ rest'"
       "clip_img_model (snd (except_soft_fail r)) = clip_img_model (snd r)" by blast
  have "clip_process_image env file s = except_soft_fail r"
    by (simp add: clip_process_image_def s1 r_def)
  with e(1) have "clip_process_image env file s = (Returned resp, snd (except_soft_fail r))"
    by simp
  moreover from e t s1 have "clip_img_model (snd (except_soft_fail r)) = Some m"
    by (simp add: log_simps)
  moreover from e t s1 have "trace (snd (except_soft_fail r))
      = trace s @ load_events ClipImage (clip_img_model s)
          @ FileRead # Imdecode # (rest @ rest')"
    by (simp add: log_simps)
  ultimately show ?thesis by blast
qed

lemma clip_process_image_raised:
  assumes "loaded_with (clip_img_model s) (utils_clip_load_img_model env) = None"
  shows "\<exists>e. utils_clip_load_img_model env = Inl e
           \<and> clip_process_image env file s = (Unhandled e, log (Construct ClipImage) s)"
  using load_clip_img_model_raised [OF assms] by (auto simp: clip_process_image_def)

lemma app_authenticated:
  "app env (PostOcr (api_auth_key env) file) s = process_image env file (check_activity env s)"
  "app env (PostClipImg (api_auth_key env) file) s
     = clip_process_image env file (check_activity env s)"
  "app env (PostClipTxt (api_auth_key env) text) s
     = clip_process_txt env text (check_activity env s)"
  by (simp_all add: app_def depends_eq)

text \<open>
  C10. On an authenticated request to \<^verbatim>\<open>/ocr\<close> or \<^verbatim>\<open>/clip/img\<close> the loader runs first.
  If the model is there or its constructor returns one, the handler returns a response
  (a result or a soft failure, whatever the bytes are), the model variable holds the
  model afterwards, and the log shows the loading before the file is read and decoded.
  If the constructor raises, the exception leaves the handler and the file is never
  read.
\<close>

theorem model_loaded_before_read:
  "(loaded_with (rapid_ocr s) (RapidOCR_new env) = Some m \<longrightarrow>
      (\<exists>resp s' rest. app env (PostOcr (api_auth_key env) file) s = (Returned resp, s')
         \<and> rapid_ocr s' = Some m
         \<and> trace s' = trace s @ load_events OCR (rapid_ocr s) @ FileRead # Imdecode # rest))
   \<and> (loaded_with (rapid_ocr s) (RapidOCR_new env) = None \<longrightarrow>
      (\<exists>e. RapidOCR_new env = Inl e
         \<and> app env (PostOcr (api_auth_key env) file) s
             = (Unhandled e, log (Construct OCR) (check_activity env s))))
   \<and> (loaded_with (clip_img_model s) (utils_clip_load_img_model env) = Some m \<longrightarrow>
      (\<exists>resp s' rest. app env (PostClipImg (api_auth_key env) file) s = (Returned resp, s')
         \<and> clip_img_model s' = Some m
         \<and> trace s' = trace s @ load_events ClipImage (clip_img_model s)
                        @ FileRead # Imdecode # rest))
   \<and> (loaded_with (clip_img_model s) (utils_clip_load_img_model env) = None \<longrightarrow>
      (\<exists>e. utils_clip_load_img_model env = Inl e
         \<and> app env (PostClipImg (api_auth_key env) file) s
             = (Unhandled e, log (Construct ClipImage) (check_activity env s))))"
  using process_image_loaded [of "check_activity env s" env m "file"]
        process_image_raised [of "check_activity env s" env "file"]
        clip_process_image_loaded [of "check_activity env s" env m "file"]
        clip_process_image_raised [of "check_activity env s" env "file"]
  by (simp add: app_authenticated check_activity_globals)

theorem model_loaded_before_read_witness:
  "loaded_with (rapid_ocr (initial 0 :: nat state)) (RapidOCR_new demo_env) = Some 1
   \<and> (\<exists>resp s' rest.
         app demo_env (PostOcr ''mt_photos_ai_extra'' wide_file) (initial 0) = (Returned resp, s')
         \<and> rapid_ocr s' = Some 1
         \<and> trace s' = [Construct OCR, Loaded OCR, FileRead, Imdecode] @ rest)
   \<and> loaded_with (clip_img_model (initial 0 :: nat state)) (utils_clip_load_img_model demo_env)
       = Some 2
   \<and> (\<exists>resp s' rest.
         app demo_env (PostClipImg ''mt_photos_ai_extra'' wide_file) (initial 0)
           = (Returned resp, s')
         \<and> clip_img_model s' = Some 2
         \<and> trace s' = [Construct ClipImage, Loaded ClipImage, FileRead, Imdecode] @ rest)
   \<and> loaded_with (rapid_ocr (initial 0 :: nat state)) (RapidOCR_new broken_env) = None
   \<and> app broken_env (PostOcr ''mt_photos_ai_extra'' wide_file) (initial 0)
       = (Unhandled (Exception ''model file not found''),
          log (Construct OCR) (check_activity broken_env (initial 0)))
   \<and> loaded_with (clip_img_model (initial 0 :: nat state)) (utils_clip_load_img_model broken_env)
       = None
   \<and> app broken_env (PostClipImg ''mt_photos_ai_extra'' wide_file) (initial 0)
       = (Unhandled (Exception ''model file not found''),
          log (Construct ClipImage) (check_activity broken_env (initial 0)))"
  using model_loaded_before_read
          [of "initial 0" demo_env 1 wide_file]
        model_loaded_before_read
          [of "initial 0" demo_env 2 wide_file]
        model_loaded_before_read
          [of "initial 0" broken_env _ wide_file]
  by (simp add: demo_env_def broken_env_def loaded_with_def initial_def load_events_def)

subsection \<open>The size bound\<close>

lemma process_image_try:
  assumes "loaded_with (rapid_ocr s) (RapidOCR_new env) = Some m"
  shows "\<exists>s1. rapid_ocr s1 = Some m
           \<and> trace s1 = trace s @ load_events OCR (rapid_ocr s) @ [FileRead]
           \<and> process_image env file s = except_soft_fail (ocr_try env file s1)"
proof -
  from load_ocr_model_loaded [OF assms] obtain s1 where
    s1: "load_ocr_model env s = (None, s1)" "rapid_ocr s1 = Some m"
        "trace s1 = trace s @ load_events OCR (rapid_ocr s)" by blast
  then have "rapid_ocr (log FileRead s1) = Some m
      \<and> trace (log FileRead s1) = trace s @ load_events OCR (rapid_ocr s) @ [FileRead]
      \<and> process_image env file s = except_soft_fail (ocr_try env file (log FileRead s1))"
    by (simp add: process_image_def log_simps)
  then show ?thesis by blast
qed

lemma clip_process_image_try:
  assumes "loaded_with (clip_img_model s) (utils_clip_load_img_model env) = Some m"
  shows "\<exists>s1. clip_img_model s1 = Some m
           \<and> trace s1 = trace s @ load_events ClipImage (clip_img_model s) @ [FileRead]
           \<and> clip_process_image env file s = except_soft_fail (clip_img_try env file s1)"
proof -
  from load_clip_img_model_loaded [OF assms] obtain s1 where
    s1: "load_clip_img_model env s = (None, s1)" "clip_img_model s1 = Some m"
        "trace s1 = trace s @ load_events ClipImage (clip_img_model s)" by blast
  then have "clip_img_model (log FileRead s1) = Some m
      \<and> trace (log FileRead s1)
          = trace s @ load_events ClipImage (clip_img_model s) @ [FileRead]
      \<and> clip_process_image env file s
          = except_soft_fail (clip_img_try env file (log FileRead s1))"
    by (simp add: clip_process_image_def log_simps)
  then show ?thesis by blast
qed

text \<open>
  C1, as the code has it. On an authenticated request to \<^verbatim>\<open>/ocr\<close> whose bytes decode
  to an image wider or higher than 10000 pixels, once the OCR model is loaded, the
  handler returns \<^verbatim>\<open>{'result': [], 'msg': 'height or width out of range'}\<close>, and after
  the decoding nothing more is logged: the OCR engine is not called.
\<close>

theorem ocr_bound_check:
  assumes "loaded_with (rapid_ocr s) (RapidOCR_new env) = Some m"
    and "cv2_imdecode env file = Inr (Some img)"
    and "shape img = (height, width, channels)"
    and "width > 10000 \<or> height > 10000"
  shows "\<exists>s'. app env (PostOcr (api_auth_key env) file) s
                 = (Returned (SoftFail ''height or width out of range''), s')
              \<and> trace s' = trace s @ load_events OCR (rapid_ocr s) @ [FileRead, Imdecode]
              \<and> Infer OCR \<notin> set (load_events OCR (rapid_ocr s) @ [FileRead, Imdecode])"
proof -
  from process_image_try [of "check_activity env s" env m "file"] assms(1) obtain s1 where
    s1: "trace s1 = trace s @ load_events OCR (rapid_ocr s) @ [FileRead]"
        "process_image env file (check_activity env s) = except_soft_fail (ocr_try env file s1)"
    by (auto simp: check_activity_globals)
  from assms(2-4) have "ocr_try env file s1
      = (Inr (SoftFail ''height or width out of range''), log Imdecode s1)"
    by (auto simp: ocr_try_def Let_def)
  with s1 have "app env (PostOcr (api_auth_key env) file) s
      = (Returned (SoftFail ''height or width out of range''), log Imdecode s1)"
    by (simp add: app_authenticated except_soft_fail_def)
  moreover from s1 have "trace (log Imdecode s1)
      = trace s @ load_events OCR (rapid_ocr s) @ [FileRead, Imdecode]"
    by (simp add: log_simps)
  moreover have "Infer OCR \<notin> set (load_events OCR (rapid_ocr s) @ [FileRead, Imdecode])"
    by (simp add: load_events_def)
  ultimately show ?thesis by blast
qed

theorem ocr_bound_check_witness:
  "loaded_with (rapid_ocr (initial 0 :: nat state)) (RapidOCR_new demo_env) = Some 1
   \<and> cv2_imdecode demo_env wide_file = Inr (Some \<lparr>shape = (1, 10001, 3), pixels = wide_file\<rparr>)
   \<and> (\<exists>s'. app demo_env (PostOcr ''mt_photos_ai_extra'' wide_file) (initial 0)
                 = (Returned (SoftFail ''height or width out of range''), s')
              \<and> trace s' = [Construct OCR, Loaded OCR, FileRead, Imdecode])"
proof -
  have a: "loaded_with (rapid_ocr (initial 0 :: nat state)) (RapidOCR_new demo_env) = Some 1"
    by (simp add: demo_env_def loaded_with_def initial_def)
  have b: "cv2_imdecode demo_env wide_file
             = Inr (Some \<lparr>shape = (1, 10001, 3), pixels = wide_file\<rparr>)"
    by (simp add: demo_env_def demo_decode_def wide_file_def)
  have c: "shape \<lparr>shape = (1, 10001, 3), pixels = wide_file\<rparr> = (1, 10001, 3)" by simp
  have d: "(10001::nat) > 10000 \<or> (1::nat) > 10000" by simp
  from ocr_bound_check [OF a b c d] a b show ?thesis
    by (simp add: demo_env_def load_events_def initial_def)
qed

text \<open>
  C1, as stated, also covers \<^verbatim>\<open>/clip/img\<close>. That handler reads no shape and has no
  bound: an image 10001 pixels wide goes to the CLIP encoder, and the response is its
  embedding.
\<close>

theorem clip_img_unbounded:
  "cv2_imdecode demo_env wide_file = Inr (Some \<lparr>shape = (1, 10001, 3), pixels = wide_file\<rparr>)
   \<and> fst (app demo_env (PostClipImg ''mt_photos_ai_extra'' wide_file) (initial 0))
       = Returned (Embedding (map (format_f 16) demo_vector))
   \<and> trace (snd (app demo_env (PostClipImg ''mt_photos_ai_extra'' wide_file) (initial 0)))
       = [Construct ClipImage, Loaded ClipImage, FileRead, Imdecode, Infer ClipImage]"
  by (simp add: demo_env_def demo_decode_def wide_file_def app_def depends_eq
        check_activity_def clip_process_image_def load_clip_img_model_def
        clip_img_try_def except_soft_fail_def log_def initial_def Let_def)

subsection \<open>Failures of the decoder and the engines\<close>

lemma clip_process_txt_loaded:
  assumes "loaded_with (clip_txt_model s) (utils_clip_load_txt_model env) = Some m"
  shows "clip_process_txt env text s =
           (case utils_clip_process_txt env text (Some m) of
              Inl e \<Rightarrow> Unhandled e
            | Inr result \<Rightarrow> Returned (Embedding (map (format_f 16) result)),
            snd (clip_process_txt env text s))"
  using load_clip_txt_model_loaded [OF assms]
  by (auto simp: clip_process_txt_def Let_def split: sum.splits)

text \<open>
  C2, as the code has it. On an authenticated request to \<^verbatim>\<open>/ocr\<close> or \<^verbatim>\<open>/clip/img\<close>,
  once the model is loaded, the handler always returns a response: whatever the decoder,
  the engine or the normalizer raises inside the \<^verbatim>\<open>try\<close> becomes
  \<^verbatim>\<open>{'result': [], 'msg': str(e)}\<close>. In particular an exception of the decoder, bytes
  that decode to \<^verbatim>\<open>None\<close>, and an exception of the engine call all end so.
\<close>

theorem image_routes_soft_fail:
  "(loaded_with (rapid_ocr s) (RapidOCR_new env) = Some m \<longrightarrow>
      (\<exists>resp s'. app env (PostOcr (api_auth_key env) file) s = (Returned resp, s')
         \<and> (\<forall>e. cv2_imdecode env file = Inl e \<longrightarrow> resp = SoftFail (str_exc e))
         \<and> (cv2_imdecode env file = Inr None \<longrightarrow>
               resp = SoftFail (quoted ''NoneType'' @ '' object has no attribute ''
                                @ quoted ''shape''))
         \<and> (\<forall>img height width channels e.
               cv2_imdecode env file = Inr (Some img)
               \<and> shape img = (height, width, channels)
               \<and> \<not> (width > 10000 \<or> height > 10000)
               \<and> RapidOCR_call env m img = Inl e
               \<longrightarrow> resp = SoftFail (str_exc e))
         \<and> (\<forall>img height width channels result e.
               cv2_imdecode env file = Inr (Some img)
               \<and> shape img = (height, width, channels)
               \<and> \<not> (width > 10000 \<or> height > 10000)
               \<and> RapidOCR_call env m img = Inr result
               \<and> trans_result (fst result) = Inl e
               \<longrightarrow> resp = SoftFail (str_exc e))))
   \<and> (loaded_with (clip_img_model s) (utils_clip_load_img_model env) = Some m \<longrightarrow>
      (\<exists>resp s'. app env (PostClipImg (api_auth_key env) file) s = (Returned resp, s')
         \<and> (\<forall>e. cv2_imdecode env file = Inl e \<longrightarrow> resp = SoftFail (str_exc e))
         \<and> (\<forall>img e. cv2_imdecode env file = Inr img
               \<and> utils_clip_process_image env img (Some m) = Inl e
               \<longrightarrow> resp = SoftFail (str_exc e))))"
proof (intro conjI impI)
  assume a: "loaded_with (rapid_ocr s) (RapidOCR_new env) = Some m"
  from process_image_try [of "check_activity env s" env m "file"] a obtain s1 where
    s1: "rapid_ocr s1 = Some m"
        "process_image env file (check_activity env s) = except_soft_fail (ocr_try env file s1)"
    by (auto simp: check_activity_globals)
  define r where "r = ocr_try env file s1"
  obtain resp where resp: "fst (except_soft_fail r) = Returned resp"
    using except_soft_fail_Returned by blast
  have app: "app env (PostOcr (api_auth_key env) file) s = (Returned resp, snd (except_soft_fail r))"
    using s1 resp by (simp add: app_authenticated r_def prod_eq_iff)
  have d1: "\<forall>e. cv2_imdecode env file = Inl e \<longrightarrow> resp = SoftFail (str_exc e)"
    using resp by (auto simp: r_def ocr_try_def Let_def except_soft_fail_def)
  have d2: "cv2_imdecode env file = Inr None \<longrightarrow>
               resp = SoftFail (quoted ''NoneType'' @ '' object has no attribute ''
                                @ quoted ''shape'')"
    using resp by (auto simp: r_def ocr_try_def Let_def except_soft_fail_def)
  have d3: "\<forall>img height width channels e.
               cv2_imdecode env file = Inr (Some img)
               \<and> shape img = (height, width, channels)
               \<and> \<not> (width > 10000 \<or> height > 10000)
               \<and> RapidOCR_call env m img = Inl e
               \<longrightarrow> resp = SoftFail (str_exc e)"
    using resp s1(1) by (auto simp: r_def ocr_try_def Let_def except_soft_fail_def log_simps)
  have d4: "\<forall>img height width channels result e.
               cv2_imdecode env file = Inr (Some img)
               \<and> shape img = (height, width, channels)
               \<and> \<not> (width > 10000 \<or> height > 10000)
               \<and> RapidOCR_call env m img = Inr result
               \<and> trans_result (fst result) = Inl e
               \<longrightarrow> resp = SoftFail (str_exc e)"
    using resp s1(1) by (auto simp: r_def ocr_try_def Let_def except_soft_fail_def log_simps)
  from app d1 d2 d3 d4
  show "\<exists>resp s'. app env (PostOcr (api_auth_key env) file) s = (Returned resp, s')
         \<and> (\<forall>e. cv2_imdecode env file = Inl e \<longrightarrow> resp = SoftFail (str_exc e))
         \<and> (cv2_imdecode env file = Inr None \<longrightarrow>
               resp = SoftFail (quoted ''NoneType'' @ '' object has no attribute ''
                                @ quoted ''shape''))
         \<and> (\<forall>img height width channels e.
               cv2_imdecode env file = Inr (Some img)
               \<and> shape img = (height, width, channels)
               \<and> \<not> (width > 10000 \<or> height > 10000)
               \<and> RapidOCR_call env m img = Inl e
               \<longrightarrow> resp = SoftFail (str_exc e))
         \<and> (\<forall>img height width channels result e.
               cv2_imdecode env file = Inr (Some img)
               \<and> shape img = (height, width, channels)
               \<and> \<not> (width > 10000 \<or> height > 10000)
               \<and> RapidOCR_call env m img = Inr result
               \<and> trans_result (fst result) = Inl e
               \<longrightarrow> resp = SoftFail (str_exc e))"
    by blast
next
  assume a: "loaded_with (clip_img_model s) (utils_clip_load_img_model env) = Some m"
  from clip_process_image_try [of "check_activity env s" env m "file"] a obtain s1 where
    s1: "clip_img_model s1 = Some m"
        "clip_process_image env file (check_activity env s)
           = except_soft_fail (clip_img_try env file s1)"
    by (auto simp: check_activity_globals)
  define r where "r = clip_img_try env file s1"
  obtain resp where resp: "fst (except_soft_fail r) = Returned resp"
    using except_soft_fail_Returned by blast
  have app: "app env (PostClipImg (api_auth_key env) file) s
               = (Returned resp, snd (except_soft_fail r))"
    using s1 resp by (simp add: app_authenticated r_def prod_eq_iff)
  have d1: "\<forall>e. cv2_imdecode env file = Inl e \<longrightarrow> resp = SoftFail (str_exc e)"
    using resp by (auto simp: r_def clip_img_try_def Let_def except_soft_fail_def)
  have d2: "\<forall>img e. cv2_imdecode env file = Inr img
               \<and> utils_clip_process_image env img (Some m) = Inl e
               \<longrightarrow> resp = SoftFail (str_exc e)"
    using resp s1(1)
    by (auto simp: r_def clip_img_try_def Let_def except_soft_fail_def log_simps)
  from app d1 d2
  show "\<exists>resp s'. app env (PostClipImg (api_auth_key env) file) s = (Returned resp, s')
         \<and> (\<forall>e. cv2_imdecode env file = Inl e \<longrightarrow> resp = SoftFail (str_exc e))
         \<and> (\<forall>img e. cv2_imdecode env file = Inr img
               \<and> utils_clip_process_image env img (Some m) = Inl e
               \<longrightarrow> resp = SoftFail (str_exc e))"
    by blast
qed

theorem image_routes_soft_fail_witness:
  "loaded_with (rapid_ocr (initial 0 :: nat state)) (RapidOCR_new demo_env) = Some 1
   \<and> cv2_imdecode demo_env [] = Inl (Exception ''buffer is empty'')
   \<and> fst (app demo_env (PostOcr ''mt_photos_ai_extra'' []) (initial 0))
       = Returned (SoftFail ''buffer is empty'')
   \<and> cv2_imdecode demo_env corrupt_file = Inr None
   \<and> fst (app demo_env (PostOcr ''mt_photos_ai_extra'' corrupt_file) (initial 0))
       = Returned (SoftFail (quoted ''NoneType'' @ '' object has no attribute ''
                             @ quoted ''shape''))
   \<and> fst (app busy_env (PostOcr ''mt_photos_ai_extra'' small_file) (initial 0))
       = Returned (SoftFail ''Infer Request is busy'')
   \<and> trans_result (Some [([[ten]], ''hello'', ten)]) = Inl (Exception ''list index out of range'')
   \<and> fst (app ragged_env (PostOcr ''mt_photos_ai_extra'' small_file) (initial 0))
       = Returned (SoftFail ''list index out of range'')
   \<and> loaded_with (clip_img_model (initial 0 :: nat state)) (utils_clip_load_img_model demo_env)
       = Some 2
   \<and> fst (app demo_env (PostClipImg ''mt_photos_ai_extra'' []) (initial 0))
       = Returned (SoftFail ''buffer is empty'')
   \<and> fst (app demo_env (PostClipImg ''mt_photos_ai_extra'' corrupt_file) (initial 0))
       = Returned (SoftFail ''image is None'')"
proof -
  have l1: "loaded_with (rapid_ocr (initial 0 :: nat state)) (RapidOCR_new demo_env) = Some 1"
    and l1b: "loaded_with (rapid_ocr (initial 0 :: nat state)) (RapidOCR_new busy_env) = Some 1"
    and l1c: "loaded_with (rapid_ocr (initial 0 :: nat state)) (RapidOCR_new ragged_env) = Some 1"
    and l2: "loaded_with (clip_img_model (initial 0 :: nat state))
               (utils_clip_load_img_model demo_env) = Some 2"
    by (simp_all add: demo_env_def busy_env_def ragged_env_def loaded_with_def initial_def)
  have d: "cv2_imdecode demo_env [] = Inl (Exception ''buffer is empty'')"
    "cv2_imdecode demo_env corrupt_file = Inr None"
    "cv2_imdecode busy_env small_file = Inr (Some \<lparr>shape = (1, 1, 3), pixels = small_file\<rparr>)"
    "cv2_imdecode ragged_env small_file = Inr (Some \<lparr>shape = (1, 1, 3), pixels = small_file\<rparr>)"
    by (simp_all add: demo_env_def busy_env_def ragged_env_def demo_decode_def corrupt_file_def
          small_file_def)
  have e: "RapidOCR_call busy_env 1 \<lparr>shape = (1, 1, 3), pixels = small_file\<rparr>
             = Inl (Exception ''Infer Request is busy'')"
    "utils_clip_process_image demo_env None (Some 2) = Inl (Exception ''image is None'')"
    "RapidOCR_call ragged_env 1 \<lparr>shape = (1, 1, 3), pixels = small_file\<rparr>
             = Inr (Some [([[ten]], ''hello'', ten)], [])"
    by (simp_all add: demo_env_def busy_env_def ragged_env_def)
  have t: "trans_result (Some [([[ten]], ''hello'', ten)])
             = Inl (Exception ''list index out of range'')"
    by (simp add: trans_result_def make_box_def coord_def index_def)
  have k: "api_auth_key demo_env = ''mt_photos_ai_extra''"
    "api_auth_key busy_env = ''mt_photos_ai_extra''"
    "api_auth_key ragged_env = ''mt_photos_ai_extra''"
    by (simp_all add: demo_env_def busy_env_def ragged_env_def)
  from image_routes_soft_fail [of "initial 0" demo_env 1 "[]"] l1 d k
  have r1: "fst (app demo_env (PostOcr ''mt_photos_ai_extra'' []) (initial 0))
              = Returned (SoftFail ''buffer is empty'')"
    by auto
  from image_routes_soft_fail [of "initial 0" demo_env 2 "[]"] l2 d k
  have r4: "fst (app demo_env (PostClipImg ''mt_photos_ai_extra'' []) (initial 0))
              = Returned (SoftFail ''buffer is empty'')"
    by auto
  from image_routes_soft_fail [of "initial 0" demo_env 1 corrupt_file] l1 d k
  have r2: "fst (app demo_env (PostOcr ''mt_photos_ai_extra'' corrupt_file) (initial 0))
              = Returned (SoftFail (quoted ''NoneType'' @ '' object has no attribute ''
                                    @ quoted ''shape''))"
    by auto
  from image_routes_soft_fail [of "initial 0" busy_env 1 small_file] l1b d e k
  have r3: "fst (app busy_env (PostOcr ''mt_photos_ai_extra'' small_file) (initial 0))
              = Returned (SoftFail ''Infer Request is busy'')"
    by auto
  from image_routes_soft_fail [of "initial 0" ragged_env 1 small_file] l1c d e t k
  have r6: "fst (app ragged_env (PostOcr ''mt_photos_ai_extra'' small_file) (initial 0))
              = Returned (SoftFail ''list index out of range'')"
    by auto
  from image_routes_soft_fail [of "initial 0" demo_env 2 corrupt_file] l2 d e k
  have r5: "fst (app demo_env (PostClipImg ''mt_photos_ai_extra'' corrupt_file) (initial 0))
              = Returned (SoftFail ''image is None'')"
    by auto
  from l1 l2 d t r1 r2 r3 r4 r5 r6 show ?thesis by simp
qed

text \<open>
  C2, as stated, also covers \<^verbatim>\<open>/clip/txt\<close>. That handler has no \<^verbatim>\<open>try\<close>: an
  exception of the text encoder leaves it.
\<close>

theorem clip_txt_failure_propagates:
  "fst (app busy_env (PostClipTxt ''mt_photos_ai_extra'' ''sunset'') (initial 0))
     = Unhandled (Exception ''Infer Request is busy'')"
  by (simp add: busy_env_def demo_env_def app_def depends_eq check_activity_def
        clip_process_txt_def load_clip_txt_model_def log_def initial_def Let_def)

subsection \<open>Evaluating \<^verbatim>\<open>to_fixed\<close>\<close>

text \<open>The recursive digit functions, unfolded on numerals only.\<close>

lemma str_nat_numeral:
  "str_nat (numeral k) = (if (numeral k :: nat) < 10 then [''0123456789'' ! numeral k]
                else str_nat (numeral k div 10) @ [''0123456789'' ! (numeral k mod 10)])"
  "str_nat 0 = ''0''" "str_nat (Suc 0) = ''1''"
  by (simp_all add: str_nat.simps [of "numeral k"] str_nat.simps [of 0]
        str_nat.simps [of "Suc 0"])

lemma bitlen_numeral:
  "bitlen (numeral k) = Suc (bitlen (numeral k div 2))"
  "bitlen 0 = 0" "bitlen (Suc 0) = 1"
  by (simp_all add: bitlen.simps [of "numeral k"] bitlen.simps [of 0] bitlen.simps [of "Suc 0"])

lemma shortest_numeral:
  "shortest (numeral n) k s p q =
     (let t = decimal_exponent p q - int k + 1
      in case filter (\<lambda>c. of_decimal s c t = nearest_double s p q) (candidates p q t) of
           c # _ \<Rightarrow> (c, t)
         | [] \<Rightarrow> shortest (pred_numeral n) (Suc k) s p q)"
  by (simp add: numeral_eq_Suc)

lemmas float_eval = str_nat_numeral bitlen_numeral
  decimal_round_def round_half_even_def nearest_double_def scale2_def dyadic_def
  scale10_def decimal_exponent_def of_decimal_def candidates_def strip_zeros_def
  repr_digits_def Let_def

text \<open>\<^verbatim>\<open>round(10.0, 2)\<close> is \<^verbatim>\<open>10.0\<close>.\<close>

lemma py_round_ten: "py_round ten 2 = ten"
  by (simp add: ten_def py_round_def float_eval)

text \<open>\<^verbatim>\<open>str(10.0)\<close> is \<^verbatim>\<open>'10.0'\<close>: one digit, \<open>1\<close>, with the point two places on.\<close>

lemma ten_exponent: "decimal_exponent 5629499534213120 562949953421312 = 1"
  by (simp add: float_eval)

lemma ten_candidates: "candidates 5629499534213120 562949953421312 1 = [1]"
  by (simp add: float_eval)

lemma ten_read_back: "of_decimal False (Suc 0) 1 = Finite False 5629499534213120 (- 49)"
  by (simp add: float_eval)

lemma ten_nearest:
  "nearest_double False 5629499534213120 562949953421312 = Finite False 5629499534213120 (- 49)"
  by (simp add: float_eval)

lemma ten_shortest: "shortest 16 (Suc 0) False 5629499534213120 562949953421312 = (Suc 0, 1)"
  by (simp add: shortest_numeral ten_exponent ten_candidates ten_read_back ten_nearest)

lemma ten_digits:
  "repr_digits False (strip_zeros (str_nat (Suc 0))) (1 + int (length (str_nat (Suc 0))))
     = ''10.0''"
  by (simp add: float_eval)

lemma py_str_ten: "py_str ten = ''10.0''"
  by (simp add: ten_def py_str_def dyadic_def ten_shortest ten_digits)

text \<open>
  C3. The scores (\<^verbatim>\<open>f"{x:.2f}"\<close>) and the embedding components (\<^verbatim>\<open>"{:.16f}"\<close>) have
  exactly 2 and 16 digits after the point (\<open>format_f_places\<close>). The four fields of a
  box go through \<^verbatim>\<open>to_fixed\<close>, which is \<^verbatim>\<open>str(round(num, 2))\<close>: \<^verbatim>\<open>str\<close> writes the
  shortest decimal, so a corner at \<^verbatim>\<open>10.0\<close> is rendered \<^verbatim>\<open>'10.0'\<close>, with one digit
  after the point, where the formatting of the scores gives \<^verbatim>\<open>'10.00'\<close>.
\<close>

theorem to_fixed_drops_zero:
  "to_fixed ten = ''10.0'' \<and> decimal_places (to_fixed ten) = Some 1
   \<and> decimal_places (format_f 2 ten) = Some 2"
proof -
  have a: "to_fixed ten = ''10.0''"
    by (simp add: to_fixed_def py_round_ten py_str_ten)
  have b: "decimal_places ''10.0'' = Some 1"
    by (simp add: decimal_places_def is_digit_def)
  have c: "decimal_places (format_f 2 ten) = Some 2"
    unfolding ten_def by (rule format_f_places) simp
  from a b c show ?thesis by simp
qed

subsection \<open>The idle-restart timer\<close>


























subsection \<open>Single construction\<close>

text \<open>Everything but the loaders leaves the models and the loading events alone.\<close>

lemma count_list_filter: "P a \<Longrightarrow> count_list (filter P xs) a = count_list xs a"
  by (induction xs) auto

lemma same_models_single:
  assumes "same_models s s'" "single_load env k s"
  shows "single_load env k s'"
proof -
  from assms(1) have f: "filter model_event (trace s') = filter model_event (trace s)"
    and sl: "slot k s' = slot k s"
    by (cases k; simp add: same_models_def)+
  have "count_list (trace s') (Loaded k) = count_list (filter model_event (trace s)) (Loaded k)"
    using count_list_filter [of model_event "Loaded k" "trace s'"] f by simp
  then have l: "count_list (trace s') (Loaded k) = count_list (trace s) (Loaded k)"
    by (simp add: count_list_filter)
  have "count_list (trace s') (Construct k)
      = count_list (filter model_event (trace s)) (Construct k)"
    using count_list_filter [of model_event "Construct k" "trace s'"] f by simp
  then have c: "count_list (trace s') (Construct k) = count_list (trace s) (Construct k)"
    by (simp add: count_list_filter)
  from assms(2) show ?thesis by (simp add: single_load_def l c sl)
qed

lemma same_models_refl: "same_models s s"
  by (simp add: same_models_def)

lemma same_models_log: "\<not> model_event ev \<Longrightarrow> same_models s (log ev s)"
  by (simp add: same_models_def log_def)

lemma same_models_check_activity: "same_models s (check_activity env s)"
  by (simp add: same_models_def check_activity_globals)

lemma same_models_ocr_try: "same_models s (snd (ocr_try env file s))"
  by (auto simp: same_models_def ocr_try_def Let_def log_def
           split: sum.splits option.splits prod.splits)

lemma same_models_clip_img_try: "same_models s (snd (clip_img_try env file s))"
  by (auto simp: same_models_def clip_img_try_def Let_def log_def
           split: sum.splits option.splits prod.splits)

lemma same_models_except: "same_models s (snd r) \<Longrightarrow> same_models s (snd (except_soft_fail r))"
  by (cases r) (auto simp: same_models_def except_soft_fail_def log_def split: sum.splits)

lemma same_models_reading_ocr:
  "same_models s (snd (except_soft_fail (ocr_try env file (log FileRead s))))"
proof -
  have "same_models (log FileRead s) (snd (ocr_try env file (log FileRead s)))"
    by (rule same_models_ocr_try)
  then have "same_models s (snd (ocr_try env file (log FileRead s)))"
    by (simp add: same_models_def log_def)
  then show ?thesis by (rule same_models_except)
qed

lemma same_models_reading_clip:
  "same_models s (snd (except_soft_fail (clip_img_try env file (log FileRead s))))"
proof -
  have "same_models (log FileRead s) (snd (clip_img_try env file (log FileRead s)))"
    by (rule same_models_clip_img_try)
  then have "same_models s (snd (clip_img_try env file (log FileRead s)))"
    by (simp add: same_models_def log_def)
  then show ?thesis by (rule same_models_except)
qed

lemma load_ocr_model_single:
  "single_load env k s \<Longrightarrow> single_load env k (snd (load_ocr_model env s))"
  by (cases k)
     (auto simp: single_load_def load_ocr_model_def log_def split: sum.splits)

lemma load_clip_img_model_single:
  "single_load env k s \<Longrightarrow> single_load env k (snd (load_clip_img_model env s))"
  by (cases k)
     (auto simp: single_load_def load_clip_img_model_def log_def split: sum.splits)

lemma load_clip_txt_model_single:
  "single_load env k s \<Longrightarrow> single_load env k (snd (load_clip_txt_model env s))"
  by (cases k)
     (auto simp: single_load_def load_clip_txt_model_def log_def split: sum.splits)

lemma clip_process_txt_single:
  assumes "single_load env k s"
  shows "single_load env k (snd (clip_process_txt env text s))"
proof -
  define s1 where "s1 = snd (load_clip_txt_model env s)"
  have s1: "single_load env k s1"
    unfolding s1_def using assms by (rule load_clip_txt_model_single)
  have "same_models s1 (snd (clip_process_txt env text s))"
    by (auto simp: clip_process_txt_def s1_def Let_def same_models_def log_def
             split: prod.splits option.splits sum.splits)
  from same_models_single [OF this s1] show ?thesis .
qed

lemma process_image_single:
  assumes "single_load env k s"
  shows "single_load env k (snd (process_image env file s))"
proof -
  define s1 where "s1 = snd (load_ocr_model env s)"
  have s1: "single_load env k s1"
    unfolding s1_def using assms by (rule load_ocr_model_single)
  have "same_models s1 (snd (process_image env file s))"
    using same_models_reading_ocr [of s1 env "file"]
    by (auto simp: process_image_def s1_def same_models_refl split: prod.splits option.splits)
  from same_models_single [OF this s1] show ?thesis .
qed

lemma clip_process_image_single:
  assumes "single_load env k s"
  shows "single_load env k (snd (clip_process_image env file s))"
proof -
  define s1 where "s1 = snd (load_clip_img_model env s)"
  have s1: "single_load env k s1"
    unfolding s1_def using assms by (rule load_clip_img_model_single)
  have "same_models s1 (snd (clip_process_image env file s))"
    using same_models_reading_clip [of s1 env "file"]
    by (auto simp: clip_process_image_def s1_def same_models_refl
             split: prod.splits option.splits)
  from same_models_single [OF this s1] show ?thesis .
qed

lemma route_handler_single:
  assumes "single_load env k s"
  shows "single_load env k (snd (route_handler env req s))"
proof (cases req)
  case (PostRestartV2 key)
  have "same_models s (snd (restart_program env s))"
    by (simp add: restart_program_def Let_def same_models_log)
  from same_models_single [OF this assms] PostRestartV2 show ?thesis
    by (simp add: check_req_restart_v2_def)
qed (simp_all add: assms top_info_def check_req_def check_req_restart_def
       process_image_single clip_process_image_single clip_process_txt_single)

lemma step_task_single:
  assumes "single_load env k s"
  shows "single_load env k (snd (step_task env t s))"
proof (cases t)
  case (Arrived req)
  from same_models_single [OF same_models_check_activity assms] Arrived
  show ?thesis by simp
next
  case (Authenticating req)
  with assms show ?thesis by (simp split: option.splits sum.splits)
next
  case (Handling req)
  show ?thesis
  proof (cases req)
    case (PostOcr key f)
    with Handling load_ocr_model_single [OF assms] show ?thesis
      by (auto split: prod.splits option.splits)
  next
    case (PostClipImg key f)
    with Handling load_clip_img_model_single [OF assms] show ?thesis
      by (auto split: prod.splits option.splits)
  qed (use Handling route_handler_single [OF assms, of req] in
        \<open>auto split: prod.splits\<close>)
next
  case (Reading req)
  show ?thesis
  proof (cases req)
    case (PostOcr key f)
    with Reading same_models_single [OF same_models_reading_ocr assms, of env f]
    show ?thesis by (auto split: prod.splits)
  next
    case (PostClipImg key f)
    with Reading same_models_single [OF same_models_reading_clip assms, of env f]
    show ?thesis by (auto split: prod.splits)
  qed (use Reading assms in auto)
next
  case (Done out)
  with assms show ?thesis by simp
qed

lemma resume_single:
  "single_load env k (shared p) \<Longrightarrow> single_load env k (shared (resume env i p))"
  using step_task_single [of env k "shared p" "tasks p ! i"]
  by (auto simp: resume_def split: prod.splits)

lemma run_pool_single:
  "single_load env k (shared p) \<Longrightarrow> single_load env k (shared (run_pool env sch p))"
  by (induction env sch p rule: run_pool.induct) (simp_all add: resume_single)

lemma initial_single: "single_load env k (initial t)"
  by (cases k) (simp_all add: single_load_def initial_def)

lemma boot_single: "single_load env k (boot env t)"
  using load_clip_txt_model_single [OF initial_single, of env k t]
  by (simp add: boot_def startup_event_def initial_single)

text \<open>
  C9. Whatever requests arrive and however the event loop interleaves their pieces, in
  one process lifetime and for each kind of model: the assignment of a constructed
  model to its global variable happens at most once, and exactly when the variable holds
  a model; the model a request finds there is the one the constructor returned, never
  anything else; and if the constructor returns a model, it is called at most once.
\<close>

theorem single_construction:
  "count_list (trace (shared (run_pool env sch (fresh env t0)))) (Loaded k) \<le> 1
   \<and> (count_list (trace (shared (run_pool env sch (fresh env t0)))) (Loaded k) = 1
        \<longleftrightarrow> slot k (shared (run_pool env sch (fresh env t0))) \<noteq> None)
   \<and> (\<forall>m. slot k (shared (run_pool env sch (fresh env t0))) = Some m \<longrightarrow> ctor env k = Inr m)
   \<and> (\<forall>m. ctor env k = Inr m \<longrightarrow>
         count_list (trace (shared (run_pool env sch (fresh env t0)))) (Construct k) \<le> 1)"
proof -
  have "single_load env k (shared (fresh env t0))"
    by (simp add: fresh_def boot_single)
  then have "single_load env k (shared (run_pool env sch (fresh env t0)))"
    by (rule run_pool_single)
  then show ?thesis by (auto simp: single_load_def split: if_splits)
qed

lemma two_first_requests_run:
  "rapid_ocr (shared (run_pool demo_env two_first_requests (fresh demo_env 0))) = Some 1"
  "trace (shared (run_pool demo_env two_first_requests (fresh demo_env 0)))
     = [Construct OCR, Loaded OCR, FileRead, Imdecode, FileRead, Imdecode]"
  "tasks (run_pool demo_env two_first_requests (fresh demo_env 0))
     = [Done (Returned (SoftFail ''height or width out of range'')),
        Done (Returned (SoftFail ''height or width out of range''))]"
  by (simp_all add: two_first_requests_def fresh_def boot_def startup_event_def demo_env_def
        initial_def resume_def check_activity_def cancel_def verify_header_def
        load_ocr_model_def log_def ocr_try_def except_soft_fail_def demo_decode_def
        wide_file_def Let_def)

theorem single_construction_witness:
  "ctor demo_env OCR = Inr 1
   \<and> slot OCR (shared (run_pool demo_env two_first_requests (fresh demo_env 0))) = Some 1
   \<and> count_list (trace (shared (run_pool demo_env two_first_requests (fresh demo_env 0))))
        (Loaded OCR) = 1
   \<and> count_list (trace (shared (run_pool demo_env two_first_requests (fresh demo_env 0))))
        (Construct OCR) \<le> 1"
proof -
  have c: "ctor demo_env OCR = Inr 1"
    by (simp add: demo_env_def)
  have s: "slot OCR (shared (run_pool demo_env two_first_requests (fresh demo_env 0))) = Some 1"
    by (simp add: two_first_requests_run(1))
  from single_construction [of demo_env two_first_requests 0 OCR] c s
  show ?thesis by simp
qed

text \<open>
  The pieces of a request, run one after the other with nothing in between, do what the
  application does on that request.
\<close>

lemma pieces_compose:
  "run_pool env [Arrive req, Resume 0, Resume 0, Resume 0, Resume 0] \<lparr>tasks = [], shared = s\<rparr>
     = \<lparr>tasks = [Done (fst (app env req s))], shared = snd (app env req s)\<rparr>"
proof (cases req)
  case GetRoot
  then show ?thesis by (simp add: resume_def app_def top_info_def)
next
  case (PostCheck k)
  then show ?thesis
    by (simp add: resume_def app_def depends_def check_req_def split: sum.splits)
next
  case (PostRestart k)
  then show ?thesis
    by (simp add: resume_def app_def depends_def check_req_restart_def split: sum.splits)
next
  case (PostRestartV2 k)
  then show ?thesis
    by (simp add: resume_def app_def depends_def check_req_restart_v2_def
          restart_program_def Let_def split: sum.splits)
next
  case (PostOcr k f)
  then show ?thesis
    by (auto simp: resume_def app_def depends_def process_image_def
          split: sum.splits prod.splits option.splits outcome.splits)
next
  case (PostClipImg k f)
  then show ?thesis
    by (auto simp: resume_def app_def depends_def clip_process_image_def
          split: sum.splits prod.splits option.splits outcome.splits)
next
  case (PostClipTxt k t)
  then show ?thesis
    by (auto simp: resume_def app_def depends_def
          split: sum.splits prod.splits option.splits outcome.splits)
qed

subsection \<open>What a formatted float denotes\<close>

text \<open>
  Read back as a decimal numeral, \<^verbatim>\<open>"{:.<d>f}"\<close> of a finite float has the float's sign
  and denotes \<open>n / 10^d\<close>, where \<open>n\<close> is an integer nearest to the float's value times
  \<open>10^d\<close>.
\<close>

lemma digit_value_nth: "k < 10 \<Longrightarrow> digit_value (''0123456789'' ! k) = k"
proof -
  assume "k < 10"
  then have "k = 0 \<or> k = 1 \<or> k = 2 \<or> k = 3 \<or> k = 4 \<or> k = 5 \<or> k = 6 \<or> k = 7 \<or> k = 8 \<or> k = 9"
    by arith
  then show ?thesis
    by (elim disjE) (simp_all add: digit_value_def)
qed

lemma digits_acc_append: "digits_acc a (xs @ ys) = digits_acc (digits_acc a xs) ys"
  by (induction xs arbitrary: a) simp_all

lemma digits_acc_shift: "digits_acc a ds = a * 10 ^ length ds + digits_acc 0 ds"
proof (induction ds arbitrary: a)
  case Nil
  then show ?case by simp
next
  case (Cons c cs)
  have "digits_acc a (c # cs) = digits_acc (a * 10 + digit_value c) cs" by simp
  also have "\<dots> = (a * 10 + digit_value c) * 10 ^ length cs + digits_acc 0 cs"
    by (rule Cons.IH)
  also have "\<dots> = a * 10 ^ length (c # cs) + (digit_value c * 10 ^ length cs + digits_acc 0 cs)"
    by (simp add: algebra_simps)
  also have "digit_value c * 10 ^ length cs + digits_acc 0 cs = digits_acc (digit_value c) cs"
    by (rule Cons.IH [symmetric])
  finally show ?case by simp
qed

lemma digits_str_nat: "digits_acc 0 (str_nat n) = n"
proof (induction n rule: str_nat.induct)
  case (1 n)
  show ?case
  proof (cases "n < 10")
    case True
    then show ?thesis by (subst str_nat.simps) (simp add: digit_value_nth)
  next
    case False
    with 1 have "digits_acc 0 (str_nat (n div 10)) = n div 10" by simp
    with False show ?thesis
      by (subst str_nat.simps) (simp add: digits_acc_append digit_value_nth)
  qed
qed

lemma digits_zeros: "digits_acc 0 (replicate k CHR ''0'') = 0"
  by (induction k) (simp_all add: digit_value_def)

lemma digits_fixed:
  assumes "length fp = d" "digits_acc 0 fp = n mod 10 ^ d"
  shows "digits_acc 0 (str_nat (n div 10 ^ d) @ fp) = n"
proof -
  have "digits_acc 0 (str_nat (n div 10 ^ d) @ fp) = digits_acc (n div 10 ^ d) fp"
    by (simp add: digits_acc_append digits_str_nat)
  also have "\<dots> = n div 10 ^ d * 10 ^ d + n mod 10 ^ d"
    using assms digits_acc_shift [of "n div 10 ^ d" fp] by simp
  also have "\<dots> = n" by (rule div_mult_mod_eq)
  finally show ?thesis .
qed

lemma read_fixed_plain:
  assumes "list_all is_digit ip" "ip \<noteq> []" "list_all is_digit fp"
  shows "read_fixed (ip @ CHR ''.'' # fp) = Some (False, digits_acc 0 (ip @ fp), length fp)"
proof -
  obtain c cs where ip: "ip = c # cs" using assms(2) by (cases ip) auto
  with assms(1) have "c \<noteq> CHR ''-''" using not_digit(2) by auto
  with assms ip show ?thesis
    using takeWhile_digits [OF assms(1), of fp]
    by (simp add: read_fixed_def Let_def)
qed

lemma read_fixed_signed:
  assumes "list_all is_digit ip" "ip \<noteq> []" "list_all is_digit fp"
  shows "read_fixed (CHR ''-'' # ip @ CHR ''.'' # fp)
           = Some (True, digits_acc 0 (ip @ fp), length fp)"
  using assms takeWhile_digits [OF assms(1), of fp]
  by (simp add: read_fixed_def Let_def)

lemma format_f_reads_back:
  assumes "0 < d"
  shows "read_fixed (format_f d (Finite s m e)) = Some (s, decimal_round d m e, d)"
proof -
  define n where "n = decimal_round d m e"
  define ds where "ds = str_nat (n mod 10 ^ d)"
  define fp where "fp = replicate (d - length ds) CHR ''0'' @ ds"
  have "length ds \<le> d"
    unfolding ds_def using assms by (intro str_nat_length) simp_all
  then have len: "length fp = d" by (simp add: fp_def)
  have "is_digit CHR ''0''" by (simp add: is_digit_def)
  then have dig: "list_all is_digit fp"
    using str_nat_digits [of "n mod 10 ^ d"]
    by (auto simp: fp_def ds_def list_all_iff)
  have "digits_acc 0 fp = digits_acc (digits_acc 0 (replicate (d - length ds) CHR ''0'')) ds"
    by (simp add: fp_def digits_acc_append)
  then have val: "digits_acc 0 fp = n mod 10 ^ d"
    by (simp add: digits_zeros ds_def digits_str_nat)
  have whole: "digits_acc 0 (str_nat (n div 10 ^ d) @ fp) = n"
    using len val by (rule digits_fixed)
  have f: "format_f d (Finite s m e) =
             (if s then ''-'' else []) @ str_nat (n div 10 ^ d) @ CHR ''.'' # fp"
    using assms by (simp add: format_f_def Let_def n_def ds_def fp_def)
  show ?thesis
    unfolding n_def [symmetric]
    using read_fixed_plain [OF str_nat_digits str_nat_nonempty dig, of "n div 10 ^ d"]
          read_fixed_signed [OF str_nat_digits str_nat_nonempty dig, of "n div 10 ^ d"]
    by (simp add: f len whole)
qed

lemma round_half_even_nearest:
  assumes "0 < q"
  shows "2 * \<bar>int (round_half_even p q) * int q - int p\<bar> \<le> int q"
proof -
  define dv where "dv = p div q"
  define r where "r = p mod q"
  have p: "int p = int dv * int q + int r"
    unfolding dv_def r_def by (metis div_mult_mod_eq of_nat_add of_nat_mult)
  have r: "r < q" unfolding r_def using assms by simp
  have up: "int (dv + 1) * int q - int p = int q - int r"
    by (simp add: p algebra_simps)
  have down: "int dv * int q - int p = - int r"
    by (simp add: p)
  have lo: "round_half_even p q = dv \<Longrightarrow>
      \<bar>int (round_half_even p q) * int q - int p\<bar> = int r"
    using down by simp
  have hi: "round_half_even p q = dv + 1 \<Longrightarrow>
      \<bar>int (round_half_even p q) * int q - int p\<bar> = int q - int r"
    using up r by simp
  consider "2 * r < q" | "q < 2 * r" | "2 * r = q" by linarith
  then show ?thesis
  proof cases
    case 1
    then have e: "round_half_even p q = dv"
      by (simp add: round_half_even_def Let_def dv_def r_def)
    show ?thesis unfolding lo [OF e] using 1 by (simp add: algebra_simps)
  next
    case 2
    then have e: "round_half_even p q = dv + 1"
      by (simp add: round_half_even_def Let_def dv_def r_def)
    show ?thesis unfolding hi [OF e] using 2 by (simp add: algebra_simps)
  next
    case 3
    then have "round_half_even p q = dv \<or> round_half_even p q = dv + 1"
      by (simp add: round_half_even_def Let_def dv_def r_def)
    then consider (a) "round_half_even p q = dv" | (b) "round_half_even p q = dv + 1"
      by blast
    then show ?thesis
    proof cases
      case a
      show ?thesis unfolding lo [OF a] using 3 by (auto simp: algebra_simps)
    next
      case b
      show ?thesis unfolding hi [OF b] using 3 by (auto simp: algebra_simps)
    qed
  qed
qed

lemma decimal_round_nearest: "nearest_scaled d m e (decimal_round d m e)"
proof (cases "0 \<le> e")
  case True
  then show ?thesis by (simp add: nearest_scaled_def decimal_round_def)
next
  case False
  have "2 * \<bar>int (round_half_even (m * 10 ^ d) (2 ^ nat (- e))) * int (2 ^ nat (- e))
          - int (m * 10 ^ d)\<bar> \<le> int (2 ^ nat (- e))"
    by (rule round_half_even_nearest) simp
  with False show ?thesis by (simp add: nearest_scaled_def decimal_round_def)
qed

subsection \<open>Embeddings\<close>

lemma rendered_vector:
  "length (map (format_f 16) v) = length v
   \<and> (\<forall>i < length v.
          map (format_f 16) v ! i = format_f 16 (v ! i)
          \<and> (\<forall>sg mt ex. v ! i = Finite sg mt ex \<longrightarrow>
                decimal_places (map (format_f 16) v ! i) = Some 16
                \<and> (\<exists>n. read_fixed (map (format_f 16) v ! i) = Some (sg, n, 16)
                       \<and> nearest_scaled 16 mt ex n))
          \<and> (v ! i = NaN \<longrightarrow> map (format_f 16) v ! i = ''nan'')
          \<and> (\<forall>sg. v ! i = Infinity sg \<longrightarrow>
                map (format_f 16) v ! i = (if sg then ''-inf'' else ''inf'')))"
  using decimal_round_nearest
  by (auto simp: format_f_places format_f_reads_back) (simp_all add: format_f_def)

text \<open>
  C8, as the code has it. When the CLIP image encoder or the CLIP text encoder returns a
  vector, the response lists one string per component, in the encoder's order: string
  \<open>i\<close> is \<^verbatim>\<open>"{:.16f}".format\<close> of component \<open>i\<close>. For a finite component that string
  has exactly 16 digits after the point, carries the component's sign, and denotes
  \<open>n / 10^16\<close> for an integer \<open>n\<close> nearest to the component's value times \<open>10^16\<close>:
  the component rounded to 16 decimal places. A NaN is rendered \<^verbatim>\<open>'nan'\<close> and an
  infinity \<^verbatim>\<open>'inf'\<close> or \<^verbatim>\<open>'-inf'\<close>.
\<close>

theorem embedding_rendering:
  "(loaded_with (clip_img_model s) (utils_clip_load_img_model env) = Some m
      \<and> cv2_imdecode env file = Inr img
      \<and> utils_clip_process_image env img (Some m) = Inr v
    \<longrightarrow> (\<exists>xs. fst (app env (PostClipImg (api_auth_key env) file) s) = Returned (Embedding xs)
          \<and> length xs = length v
          \<and> (\<forall>i < length v.
                xs ! i = format_f 16 (v ! i)
                \<and> (\<forall>sg mt ex. v ! i = Finite sg mt ex \<longrightarrow>
                      decimal_places (xs ! i) = Some 16
                      \<and> (\<exists>n. read_fixed (xs ! i) = Some (sg, n, 16)
                             \<and> nearest_scaled 16 mt ex n))
                \<and> (v ! i = NaN \<longrightarrow> xs ! i = ''nan'')
                \<and> (\<forall>sg. v ! i = Infinity sg \<longrightarrow>
                      xs ! i = (if sg then ''-inf'' else ''inf'')))))
   \<and> (loaded_with (clip_txt_model s) (utils_clip_load_txt_model env) = Some m
      \<and> utils_clip_process_txt env text (Some m) = Inr v
    \<longrightarrow> (\<exists>xs. fst (app env (PostClipTxt (api_auth_key env) text) s) = Returned (Embedding xs)
          \<and> length xs = length v
          \<and> (\<forall>i < length v.
                xs ! i = format_f 16 (v ! i)
                \<and> (\<forall>sg mt ex. v ! i = Finite sg mt ex \<longrightarrow>
                      decimal_places (xs ! i) = Some 16
                      \<and> (\<exists>n. read_fixed (xs ! i) = Some (sg, n, 16)
                             \<and> nearest_scaled 16 mt ex n))
                \<and> (v ! i = NaN \<longrightarrow> xs ! i = ''nan'')
                \<and> (\<forall>sg. v ! i = Infinity sg \<longrightarrow>
                      xs ! i = (if sg then ''-inf'' else ''inf'')))))"
proof (intro conjI impI)
  assume a: "loaded_with (clip_img_model s) (utils_clip_load_img_model env) = Some m
      \<and> cv2_imdecode env file = Inr img
      \<and> utils_clip_process_image env img (Some m) = Inr v"
  from clip_process_image_try [of "check_activity env s" env m "file"] a obtain s1 where
    s1: "clip_img_model s1 = Some m"
        "clip_process_image env file (check_activity env s)
           = except_soft_fail (clip_img_try env file s1)"
    by (auto simp: check_activity_globals)
  from a s1(1) have "fst (except_soft_fail (clip_img_try env file s1))
      = Returned (Embedding (map (format_f 16) v))"
    by (simp add: clip_img_try_def Let_def except_soft_fail_def log_simps)
  with s1(2) have "fst (app env (PostClipImg (api_auth_key env) file) s)
      = Returned (Embedding (map (format_f 16) v))"
    by (simp add: app_authenticated)
  with rendered_vector [of v]
  show "\<exists>xs. fst (app env (PostClipImg (api_auth_key env) file) s) = Returned (Embedding xs)
          \<and> length xs = length v
          \<and> (\<forall>i < length v.
                xs ! i = format_f 16 (v ! i)
                \<and> (\<forall>sg mt ex. v ! i = Finite sg mt ex \<longrightarrow>
                      decimal_places (xs ! i) = Some 16
                      \<and> (\<exists>n. read_fixed (xs ! i) = Some (sg, n, 16)
                             \<and> nearest_scaled 16 mt ex n))
                \<and> (v ! i = NaN \<longrightarrow> xs ! i = ''nan'')
                \<and> (\<forall>sg. v ! i = Infinity sg \<longrightarrow>
                      xs ! i = (if sg then ''-inf'' else ''inf'')))"
    by blast
next
  assume a: "loaded_with (clip_txt_model s) (utils_clip_load_txt_model env) = Some m
      \<and> utils_clip_process_txt env text (Some m) = Inr v"
  then have "loaded_with (clip_txt_model (check_activity env s)) (utils_clip_load_txt_model env)
      = Some m"
    by (simp add: check_activity_globals)
  from clip_process_txt_loaded [OF this, of "text"] a
  have "clip_process_txt env text (check_activity env s)
      = (Returned (Embedding (map (format_f 16) v)),
         snd (clip_process_txt env text (check_activity env s)))"
    by simp
  then have "fst (clip_process_txt env text (check_activity env s))
      = Returned (Embedding (map (format_f 16) v))"
    by (metis fst_conv)
  then have "fst (app env (PostClipTxt (api_auth_key env) text) s)
      = Returned (Embedding (map (format_f 16) v))"
    by (simp add: app_authenticated)
  with rendered_vector [of v]
  show "\<exists>xs. fst (app env (PostClipTxt (api_auth_key env) text) s) = Returned (Embedding xs)
          \<and> length xs = length v
          \<and> (\<forall>i < length v.
                xs ! i = format_f 16 (v ! i)
                \<and> (\<forall>sg mt ex. v ! i = Finite sg mt ex \<longrightarrow>
                      decimal_places (xs ! i) = Some 16
                      \<and> (\<exists>n. read_fixed (xs ! i) = Some (sg, n, 16)
                             \<and> nearest_scaled 16 mt ex n))
                \<and> (v ! i = NaN \<longrightarrow> xs ! i = ''nan'')
                \<and> (\<forall>sg. v ! i = Infinity sg \<longrightarrow>
                      xs ! i = (if sg then ''-inf'' else ''inf'')))"
    by blast
qed

text \<open>The two components of the demonstration vector, 0.5 and -0.75, and 10.0.\<close>

lemma format_half: "format_f 16 (Finite False 4503599627370496 (- 53)) = ''0.5000000000000000''"
  by (simp add: format_f_def float_eval)

lemma format_three_quarters:
  "format_f 16 (Finite True 6755399441055744 (- 53)) = ''-0.7500000000000000''"
  by (simp add: format_f_def float_eval)

lemma format_ten: "format_f 16 ten = ''10.0000000000000000''"
  by (simp add: ten_def format_f_def float_eval) (simp add: numeral_eq_Suc)

lemma read_half: "read_fixed ''0.5000000000000000'' = Some (False, 5000000000000000, 16)"
  by (simp add: read_fixed_def is_digit_def digit_value_def)

lemma read_three_quarters:
  "read_fixed ''-0.7500000000000000'' = Some (True, 7500000000000000, 16)"
  by (simp add: read_fixed_def is_digit_def digit_value_def)


lemma two_elements: "length xs = 2 \<Longrightarrow> xs = [xs ! 0, xs ! 1]"
proof -
  assume l: "length xs = 2"
  then obtain a ys where xs: "xs = a # ys" by (cases xs) auto
  with l obtain b zs where ys: "ys = b # zs" by (cases ys) auto
  with l xs have "zs = []" by simp
  with xs ys show ?thesis by simp
qed

theorem embedding_rendering_witness:
  "loaded_with (clip_img_model (initial 0 :: nat state)) (utils_clip_load_img_model demo_env)
     = Some 2
   \<and> cv2_imdecode demo_env small_file = Inr (Some \<lparr>shape = (1, 1, 3), pixels = small_file\<rparr>)
   \<and> utils_clip_process_image demo_env (Some \<lparr>shape = (1, 1, 3), pixels = small_file\<rparr>) (Some 2)
       = Inr demo_vector
   \<and> fst (app demo_env (PostClipImg ''mt_photos_ai_extra'' small_file) (initial 0))
       = Returned (Embedding [''0.5000000000000000'', ''-0.7500000000000000''])
   \<and> loaded_with (clip_txt_model (initial 0 :: nat state)) (utils_clip_load_txt_model demo_env)
       = Some 3
   \<and> utils_clip_process_txt demo_env ''sunset'' (Some 3) = Inr demo_vector
   \<and> fst (app demo_env (PostClipTxt ''mt_photos_ai_extra'' ''sunset'') (initial 0))
       = Returned (Embedding [''0.5000000000000000'', ''-0.7500000000000000''])
   \<and> read_fixed ''0.5000000000000000'' = Some (False, 5000000000000000, 16)
   \<and> nearest_scaled 16 4503599627370496 (- 53) 5000000000000000
   \<and> read_fixed ''-0.7500000000000000'' = Some (True, 7500000000000000, 16)
   \<and> nearest_scaled 16 6755399441055744 (- 53) 7500000000000000"
proof -
  have h1: "loaded_with (clip_img_model (initial 0 :: nat state))
              (utils_clip_load_img_model demo_env) = Some 2"
    and h2: "cv2_imdecode demo_env small_file
               = Inr (Some \<lparr>shape = (1, 1, 3), pixels = small_file\<rparr>)"
    and h3: "utils_clip_process_image demo_env
               (Some \<lparr>shape = (1, 1, 3), pixels = small_file\<rparr>) (Some 2) = Inr demo_vector"
    and h4: "loaded_with (clip_txt_model (initial 0 :: nat state))
               (utils_clip_load_txt_model demo_env) = Some 3"
    and h5: "utils_clip_process_txt demo_env ''sunset'' (Some 3) = Inr demo_vector"
    and k: "api_auth_key demo_env = ''mt_photos_ai_extra''"
    by (simp_all add: demo_env_def loaded_with_def initial_def demo_decode_def small_file_def)
  have v: "length demo_vector = 2"
    "demo_vector ! 0 = Finite False 4503599627370496 (- 53)"
    "demo_vector ! 1 = Finite True 6755399441055744 (- 53)"
    by (simp_all add: demo_vector_def)
  have lt: "0 < length demo_vector" "1 < length demo_vector"
    using v(1) by simp_all
  from embedding_rendering [of "initial 0" demo_env 2 small_file
      "Some \<lparr>shape = (1, 1, 3), pixels = small_file\<rparr>" demo_vector "''sunset''"]
    h1 h2 h3 k
  obtain xs where xs: "fst (app demo_env (PostClipImg ''mt_photos_ai_extra'' small_file) (initial 0))
        = Returned (Embedding xs)" "length xs = length demo_vector"
      "\<forall>i < length demo_vector. xs ! i = format_f 16 (demo_vector ! i)"
    by auto
  from xs(3) lt v(2,3) have "xs ! 0 = ''0.5000000000000000''" "xs ! 1 = ''-0.7500000000000000''"
    by (simp_all add: format_half format_three_quarters)
  with two_elements [of xs] xs(2) v(1)
  have "xs = [''0.5000000000000000'', ''-0.7500000000000000'']" by simp
  with xs(1) have img: "fst (app demo_env (PostClipImg ''mt_photos_ai_extra'' small_file) (initial 0))
        = Returned (Embedding [''0.5000000000000000'', ''-0.7500000000000000''])"
    by simp
  from embedding_rendering [of "initial 0" demo_env 3 small_file
      "Some \<lparr>shape = (1, 1, 3), pixels = small_file\<rparr>" demo_vector "''sunset''"]
    h4 h5 k
  obtain ys where ys: "fst (app demo_env (PostClipTxt ''mt_photos_ai_extra'' ''sunset'') (initial 0))
        = Returned (Embedding ys)" "length ys = length demo_vector"
      "\<forall>i < length demo_vector. ys ! i = format_f 16 (demo_vector ! i)"
    by auto
  from ys(3) lt v(2,3) have "ys ! 0 = ''0.5000000000000000''" "ys ! 1 = ''-0.7500000000000000''"
    by (simp_all add: format_half format_three_quarters)
  with two_elements [of ys] ys(2) v(1)
  have "ys = [''0.5000000000000000'', ''-0.7500000000000000'']" by simp
  with ys(1) have tx: "fst (app demo_env (PostClipTxt ''mt_photos_ai_extra'' ''sunset'') (initial 0))
        = Returned (Embedding [''0.5000000000000000'', ''-0.7500000000000000''])"
    by simp
  have n: "nearest_scaled 16 4503599627370496 (- 53) 5000000000000000"
    "nearest_scaled 16 6755399441055744 (- 53) 7500000000000000"
    by (simp_all add: nearest_scaled_def)
  from h1 h2 h3 h4 h5 img tx n read_half read_three_quarters show ?thesis by simp
qed

text \<open>
  C8, as stated, gives a string with 16 decimals for every component. A NaN component
  comes out as \<^verbatim>\<open>'nan'\<close>, which has no decimal point at all.
\<close>

theorem nan_is_not_fixed:
  "fst (app nan_env (PostClipImg ''mt_photos_ai_extra'' small_file) (initial 0))
     = Returned (Embedding [''nan'', ''10.0000000000000000''])
   \<and> decimal_places ''nan'' = None"
proof -
  have "fst (app nan_env (PostClipImg ''mt_photos_ai_extra'' small_file) (initial 0))
     = Returned (Embedding (map (format_f 16) [NaN, ten]))"
    by (simp add: nan_env_def demo_env_def demo_decode_def small_file_def app_def depends_eq
          check_activity_def clip_process_image_def load_clip_img_model_def
          clip_img_try_def except_soft_fail_def log_def initial_def Let_def)
  moreover have "format_f 16 NaN = ''nan''" by (simp add: format_f_def)
  moreover have "decimal_places ''nan'' = None"
    by (simp add: decimal_places_def is_digit_def)
  ultimately show ?thesis by (simp add: format_ten)
qed

end
